theory Spec2Isabelle
  imports Main "HOL-Library.Word" "HOL-Library.Sublist"
begin

section \<open>Wire constants and resource records\<close>

text \<open>
  The engine is written against the DNS library \<^verbatim>\<open>github.com/miekg/dns\<close>. Its numeric
  constants are fixed by the DNS protocol; record types, classes and the reply code are
  16-bit (\<^verbatim>\<open>uint16\<close>) and the TTL is 32-bit (\<^verbatim>\<open>uint32\<close>) in the library's header struct.
\<close>

type_synonym uint16 = "16 word"
type_synonym uint32 = "32 word"

definition TypeA :: uint16 where "TypeA = 1"
definition TypeNS :: uint16 where "TypeNS = 2"
definition TypeCNAME :: uint16 where "TypeCNAME = 5"
definition TypeSOA :: uint16 where "TypeSOA = 6"
definition TypeAXFR :: uint16 where "TypeAXFR = 252"
definition TypeANY :: uint16 where "TypeANY = 255"

definition ClassINET :: uint16 where "ClassINET = 1"
definition ClassNONE :: uint16 where "ClassNONE = 254"
definition ClassANY :: uint16 where "ClassANY = 255"

definition OpcodeQuery :: nat where "OpcodeQuery = 0"
definition OpcodeUpdate :: nat where "OpcodeUpdate = 5"

definition RcodeSuccess :: nat where "RcodeSuccess = 0"
definition RcodeRefused :: nat where "RcodeRefused = 5"
definition RcodeNotAuth :: nat where "RcodeNotAuth = 9"

text \<open>
  A non-nil \<^verbatim>\<open>dns.RR\<close>: the fields of \<^verbatim>\<open>RR_Header\<close> that the engine reads, and the
  record data in presentation form. For a CNAME record the data is its \<^verbatim>\<open>Target\<close>.
\<close>

record rr =
  Name :: string
  Rrtype :: uint16
  Class :: uint16
  Ttl :: uint32
  Rdlength :: uint16
  Rdata :: string

definition Target :: "rr \<Rightarrow> string" where
  "Target r = Rdata r"

text \<open>A \<^verbatim>\<open>dns.RR\<close> interface value; \<open>None\<close> is the nil interface.\<close>

type_synonym RR = "rr option"

record Question =
  Qname :: string
  Qtype :: uint16
  Qclass :: uint16

datatype error =
    InvalidDomain string       \<comment> \<open>\<^verbatim>\<open>errors.New("Invailid domain: " + domain)\<close>\<close>
  | RecordNotFound             \<comment> \<open>\<^verbatim>\<open>fmt.Errorf("Record not found, ...")\<close> of getRecord\<close>
  | errCNAMERecordIsExist
  | errRecordsIsExist
  | ParseError                 \<comment> \<open>any error returned by \<^verbatim>\<open>dns.NewRR\<close>\<close>
  | IOError                    \<comment> \<open>an error of the file system in writeDB\<close>
  | NilDereference             \<comment> \<open>the run-time panic of a method call on a nil \<^verbatim>\<open>dns.RR\<close>\<close>

text \<open>
  A panic is not an error value in Go: it unwinds every caller. In the model it travels as
  \<open>NilDereference\<close> through the callers that return an error they received, and each
  place where the source drops an error tests for it first.
\<close>

text \<open>
  \<^verbatim>\<open>dns.Msg\<close>, for the request and for the reply: the fields the handler reads or
  writes.
\<close>

record Msg =
  Opcode :: nat
  Rcode :: nat
  Authoritative :: bool
  Question :: "Question list"
  Answer :: "RR list"
  Ns :: "RR list"
  Extra :: "RR list"

section \<open>The library and runtime interface\<close>

text \<open>
  The functions of \<^verbatim>\<open>miekg/dns\<close> that the engine calls are not part
  of the repository. They are a parameter of every definition below, so each theorem
  holds for whatever these functions compute, under the hypotheses it names.

  \<^item> \<open>IsDomainName s\<close>: the \<^verbatim>\<open>ok\<close> result of \<^verbatim>\<open>dns.IsDomainName(s)\<close>.
  \<^item> \<open>SplitDomainName s\<close>: the labels of \<^verbatim>\<open>dns.SplitDomainName(s)\<close>.
  \<^item> \<open>TypeString t\<close>: \<^verbatim>\<open>dns.Type(t).String()\<close>.
  \<^item> \<open>NewRR s\<close>: \<^verbatim>\<open>dns.NewRR(s)\<close>; \<open>ParseFailed\<close> when it returns an error,
    \<open>Parsed None\<close> for the nil record without error that the library gives for a line
    holding no record, \<open>Parsed (Some r)\<close> for the parsed record. The engine never looks
    into the library's error; in the model it is \<open>ParseError\<close>.
  \<^item> \<open>RRString r\<close>: \<^verbatim>\<open>r.String()\<close>.
  \<^item> \<open>SetReply r\<close>: the message \<^verbatim>\<open>m\<close> after \<^verbatim>\<open>m.SetReply(r)\<close> on a new message.
  \<^item> \<open>IsTsig r\<close>: \<^verbatim>\<open>r.IsTsig() != nil\<close>.
  \<^item> \<open>SetTsig r m\<close>: \<^verbatim>\<open>m\<close> after the deferred \<^verbatim>\<open>m.SetTsig(...)\<close> with the fields of the
    TSIG record of the request \<^verbatim>\<open>r\<close>.
\<close>

datatype parsed = ParseFailed | Parsed RR

record dnslib =
  IsDomainName :: "string \<Rightarrow> bool"
  SplitDomainName :: "string \<Rightarrow> string list"
  TypeString :: "uint16 \<Rightarrow> string"
  NewRR :: "string \<Rightarrow> parsed"
  RRString :: "rr \<Rightarrow> string"
  SetReply :: "Msg \<Rightarrow> Msg"
  IsTsig :: "Msg \<Rightarrow> bool"
  SetTsig :: "Msg \<Rightarrow> Msg \<Rightarrow> Msg"

subsection \<open>Go's \<^verbatim>\<open>strings\<close> package\<close>

text \<open>
  \<^verbatim>\<open>strings.ToLower\<close> on ASCII text (the library escapes every byte outside the
  printable ASCII range in a name and in a record's string, so the engine sees no other):
  the letters A to Z move to a to z.
\<close>

definition toLowerChar :: "char \<Rightarrow> char" where
  "toLowerChar c =
     (case map_of (zip ''ABCDEFGHIJKLMNOPQRSTUVWXYZ'' ''abcdefghijklmnopqrstuvwxyz'') c of
        Some l \<Rightarrow> l
      | None \<Rightarrow> c)"

definition ToLower :: "string \<Rightarrow> string" where
  "ToLower s = map toLowerChar s"

text \<open>\<^verbatim>\<open>strings.Join(elems, sep)\<close>.\<close>

fun Join :: "string list \<Rightarrow> string \<Rightarrow> string" where
  "Join [] sep = []"
| "Join [x] sep = x"
| "Join (x # y # ys) sep = x @ sep @ Join (y # ys) sep"

text \<open>\<^verbatim>\<open>strings.HasPrefix(s, p)\<close> and \<^verbatim>\<open>strings.HasSuffix(s, p)\<close>.\<close>

definition HasPrefix :: "string \<Rightarrow> string \<Rightarrow> bool" where
  "HasPrefix s p = prefix p s"

definition HasSuffix :: "string \<Rightarrow> string \<Rightarrow> bool" where
  "HasSuffix s p = suffix p s"

section \<open>Record key codec (record/record.go)\<close>

definition GetKeyDomain :: "dnslib \<Rightarrow> string \<Rightarrow> error + string" where
  "GetKeyDomain L domain =
     (if \<not> IsDomainName L domain then Inl (InvalidDomain domain)
      else let labels = SplitDomainName L domain;
               reverse_domain = ToLower (Join (rev labels) ''.'')
           in Inr reverse_domain)"

definition GetKey :: "dnslib \<Rightarrow> string \<Rightarrow> uint16 \<Rightarrow> error + string" where
  "GetKey L domain rtype =
     (case GetKeyDomain L domain of
        Inl err \<Rightarrow> Inl err
      | Inr reverse_domain \<Rightarrow> Inr (Join [reverse_domain, TypeString L rtype] ''_''))"

section \<open>The scratch pad of an update (record/pad.go)\<close>

text \<open>
  The record table, \<^verbatim>\<open>map[string][]string\<close>. Reading a key that is absent gives the nil
  slice, which \<^verbatim>\<open>append\<close>, \<^verbatim>\<open>len\<close> and \<^verbatim>\<open>slices.Contains\<close> treat as the empty one.
\<close>

type_synonym table = "string \<rightharpoonup> string list"

definition index :: "table \<Rightarrow> string \<Rightarrow> string list" where
  "index records key = (case records key of None \<Rightarrow> [] | Some v \<Rightarrow> v)"

text \<open>
  A Go map value is a reference to the map's storage. The store holds the storage of
  every map, and \<open>fresh\<close> is the next unused reference; \<^verbatim>\<open>pad\<close> and \<^verbatim>\<open>Zone\<close> hold
  references into it.
\<close>

type_synonym mapref = nat

record heap =
  cells :: "mapref \<Rightarrow> table"
  fresh :: mapref

record pad =
  records :: mapref

definition NewPad :: "mapref \<Rightarrow> pad" where
  "NewPad r = \<lparr> records = r \<rparr>"

definition Records :: "pad \<Rightarrow> mapref" where
  "Records s = pad.records s"

text \<open>
  The methods of \<^verbatim>\<open>*pad\<close> read and write the one map \<^verbatim>\<open>s.records\<close>. Each is given as a
  function from the content of that map to the returned error and the content afterwards;
  \<open>on_pad\<close> runs such a method through the pad's reference, in place in the store.
\<close>

definition on_pad :: "(table \<Rightarrow> error option \<times> table) \<Rightarrow> pad \<Rightarrow> heap \<Rightarrow> error option \<times> heap" where
  "on_pad method s h =
     (let (err, t) = method (cells h (pad.records s))
      in (err, h\<lparr>cells := (cells h)(pad.records s := t)\<rparr>))"

text \<open>
  deleteRecords: the loop visits every key once and deletes those that start with the
  prefix (deleting the visited key while ranging over a Go map is allowed), so the result
  does not depend on the order of the visit.
\<close>

definition deleteRecords :: "dnslib \<Rightarrow> string \<Rightarrow> table \<Rightarrow> error option \<times> table" where
  "deleteRecords L domain t =
     (case GetKeyDomain L domain of
        Inl err \<Rightarrow> (Some err, t)
      | Inr pfx \<Rightarrow> (None, (\<lambda>key. if HasPrefix key pfx then None else t key)))"

definition deleteRecord :: "dnslib \<Rightarrow> string \<Rightarrow> uint16 \<Rightarrow> table \<Rightarrow> error option \<times> table" where
  "deleteRecord L domain rtype t =
     (if rtype = TypeANY then deleteRecords L domain t
      else case GetKey L domain rtype of
             Inl err \<Rightarrow> (Some err, t)
           | Inr key \<Rightarrow> (None, t(key := None)))"

definition hasRecords :: "dnslib \<Rightarrow> string \<Rightarrow> table \<Rightarrow> error + bool" where
  "hasRecords L domain t =
     (case GetKeyDomain L domain of
        Inl err \<Rightarrow> Inl err
      | Inr pfx \<Rightarrow> Inr (\<exists>key \<in> dom t. HasPrefix key pfx))"

definition storeRecord :: "dnslib \<Rightarrow> rr \<Rightarrow> table \<Rightarrow> error option \<times> table" where
  "storeRecord L r t =
     (case (if Rrtype r = TypeCNAME
            then (case hasRecords L (Name r) t of
                    Inl err \<Rightarrow> Some err
                  | Inr exist \<Rightarrow> if exist then Some errRecordsIsExist else None)
            else None) of
        Some err \<Rightarrow> (Some err, t)
      | None \<Rightarrow>
         (case GetKey L (Name r) TypeCNAME of
            Inl err \<Rightarrow> (None, t)
          | Inr ckey \<Rightarrow>
             if ckey \<in> dom t then (Some errCNAMERecordIsExist, t)
             else (case GetKey L (Name r) (Rrtype r) of
                     Inl err \<Rightarrow> (Some err, t)
                   | Inr key \<Rightarrow>
                      if RRString L r \<in> set (index t key) then (None, t)
                      else (None, t(key \<mapsto> index t key @ [RRString L r])))))"

text \<open>
  The loop of omitRecord over the stored strings of one key: \<open>acc\<close> is
  \<^verbatim>\<open>newRWRecords\<close>. \<^verbatim>\<open>tmp.Header()\<close> on the nil record panics.
\<close>

fun omitLoop :: "dnslib \<Rightarrow> rr \<Rightarrow> string list \<Rightarrow> string list \<Rightarrow> error + string list" where
  "omitLoop L r [] acc = Inr acc"
| "omitLoop L r (v # vs) acc =
     (case NewRR L v of
        ParseFailed \<Rightarrow> Inl ParseError
      | Parsed None \<Rightarrow> Inl NilDereference
      | Parsed (Some tmp) \<Rightarrow>
         if ToLower (RRString L (tmp\<lparr>Ttl := 0, Class := ClassNONE\<rparr>)) = ToLower (RRString L r)
         then omitLoop L r vs acc
         else omitLoop L r vs (acc @ [v]))"

definition omitRecord :: "dnslib \<Rightarrow> rr \<Rightarrow> table \<Rightarrow> error option \<times> table" where
  "omitRecord L r t =
     (case GetKey L (Name r) (Rrtype r) of
        Inl err \<Rightarrow> (None, t)
      | Inr key \<Rightarrow>
         (case t key of
            None \<Rightarrow> (None, t)
          | Some values \<Rightarrow>
             (case omitLoop L r values [] of
                Inl err \<Rightarrow> (Some err, t)
              | Inr newRWRecords \<Rightarrow> (None, t(key \<mapsto> newRWRecords)))))"

text \<open>
  UpdateRecord. The question \<^verbatim>\<open>q\<close> is not read. \<^verbatim>\<open>r.Header()\<close> on a nil record
  panics.
\<close>

definition UpdateRecord :: "dnslib \<Rightarrow> RR \<Rightarrow> Question \<Rightarrow> table \<Rightarrow> error option \<times> table" where
  "UpdateRecord L R q t =
     (case R of
        None \<Rightarrow> (Some NilDereference, t)
      | Some r \<Rightarrow>
         if IsDomainName L (Name r) then
           if Class r = ClassANY then
             (if Rdlength r = 0 then deleteRecord L (Name r) (Rrtype r) t else (None, t))
           else if Class r = ClassNONE then
             (if Ttl r = 0 then omitRecord L r t else (None, t))
           else if Class r = ClassINET then storeRecord L r t
           else (None, t)
         else (None, t))"

section \<open>The zone\<close>

type_synonym int64 = "64 word"

text \<open>The struct \<^verbatim>\<open>Zone\<close>, without its mutex.\<close>

record Zone =
  zoneName :: string
  nsName :: string
  localAddr :: string
  filename :: string
  mtime :: int64
  records :: mapref
  allowCIDR :: string

text \<open>
  What the handler gets from its surroundings at one request.
  \<^item> \<open>TsigStatusOk\<close>: \<^verbatim>\<open>w.TsigStatus() == nil\<close>.
  \<^item> \<open>SourceAllowed cidr\<close>: the test of the update path on the remote address of the
    request, \<^verbatim>\<open>err == nil && prefix.Contains(netip.MustParseAddr(host))\<close> for
    \<^verbatim>\<open>prefix := netip.MustParsePrefix(cidr)\<close> and the host of \<^verbatim>\<open>w.RemoteAddr()\<close>; \<open>None\<close>
    when a \<^verbatim>\<open>Must\<close> function panics.
  \<^item> \<open>now\<close>: \<^verbatim>\<open>time.Now().Unix()\<close>.
  \<^item> \<open>fileIO\<close>: the file system's answer to the one rewrite of the zone file.
  \<^item> \<open>rangeOrder i j\<close>: the order in which the \<^verbatim>\<open>range\<close> over the record table visits the
    keys in the \<open>j\<close>-th lookup made for the \<open>i\<close>-th question. Go leaves that order open
    and may change it at every loop.
\<close>

datatype fileResult = WriteOk | WriteFailed | CloseFailed

record runtime =
  TsigStatusOk :: bool
  SourceAllowed :: "string \<Rightarrow> bool option"
  now :: int64
  fileIO :: fileResult
  rangeOrder :: "nat \<Rightarrow> nat \<Rightarrow> string list"

subsection \<open>Decimal output of \<^verbatim>\<open>fmt.Sprintf("%d", ...)\<close>\<close>

definition digit :: "nat \<Rightarrow> char" where
  "digit n = ''0123456789'' ! (n mod 10)"

fun showNat :: "nat \<Rightarrow> string" where
  "showNat n = (if n < 10 then [digit n] else showNat (n div 10) @ [digit (n mod 10)])"

declare showNat.simps [simp del]

definition showInt :: "int \<Rightarrow> string" where
  "showInt i = (if i < 0 then ''-'' @ showNat (nat (- i)) else showNat (nat i))"

subsection \<open>Synthesized records\<close>

text \<open>
  Both functions drop the error of \<^verbatim>\<open>dns.NewRR\<close>; with an error the library returns the
  nil record. \<^verbatim>\<open>int32(z.mtime)\<close> keeps the low 32 bits, read as a signed number.
\<close>

definition dropErr :: "parsed \<Rightarrow> RR" where
  "dropErr res = (case res of ParseFailed \<Rightarrow> None | Parsed R \<Rightarrow> R)"

definition soaRR :: "dnslib \<Rightarrow> Zone \<Rightarrow> RR" where
  "soaRR L z =
     dropErr (NewRR L (zoneName z @ '' 3600 IN SOA localhost. nobody.  ''
                       @ showInt (sint (ucast (mtime z) :: 32 word))
                       @ '' 28800 7200 2419200 1200''))"

definition nsRR :: "dnslib \<Rightarrow> Zone \<Rightarrow> RR \<times> RR" where
  "nsRR L z =
     (dropErr (NewRR L (zoneName z @ '' 3600 IN NS '' @ nsName z)),
      dropErr (NewRR L (nsName z @ '' 3600 IN A '' @ localAddr z)))"

subsection \<open>Persistence\<close>

definition alloc :: "table \<Rightarrow> heap \<Rightarrow> mapref \<times> heap" where
  "alloc t h = (fresh h, h\<lparr>cells := (cells h)(fresh h := t), fresh := Suc (fresh h)\<rparr>)"

text \<open>
  writeDB. The file's bytes are not modelled, only whether the rewrite succeeds. When
  \<^verbatim>\<open>f.Close()\<close> fails the source returns the variable \<^verbatim>\<open>err\<close> of \<^verbatim>\<open>os.Create\<close>, which
  is nil there, before the table is installed. \<^verbatim>\<open>maps.Clone\<close> allocates a new map.
\<close>

definition writeDB :: "runtime \<Rightarrow> Zone \<Rightarrow> mapref \<Rightarrow> heap \<Rightarrow> error option \<times> Zone \<times> heap" where
  "writeDB w z content h =
     (case fileIO w of
        WriteFailed \<Rightarrow> (Some IOError, z, h)
      | CloseFailed \<Rightarrow> (None, z, h)
      | WriteOk \<Rightarrow>
         (let (c, h') = alloc (cells h content) h
          in (None, z\<lparr>mtime := now w, records := c\<rparr>, h')))"

subsection \<open>Lookups\<close>

text \<open>
  The second loop of getRecord: \<open>acc\<close> is \<^verbatim>\<open>rr\<close>. Every record it returns is non-nil,
  since \<^verbatim>\<open>tmp.Header()\<close> panics on the nil record.
\<close>

fun nameFilter :: "dnslib \<Rightarrow> string \<Rightarrow> string list \<Rightarrow> rr list \<Rightarrow> error + rr list" where
  "nameFilter L tmpqName [] acc = Inr acc"
| "nameFilter L tmpqName (v # vs) acc =
     (case NewRR L v of
        ParseFailed \<Rightarrow> Inl ParseError
      | Parsed None \<Rightarrow> Inl NilDereference
      | Parsed (Some tmp) \<Rightarrow>
         if ToLower (Name tmp) = tmpqName then nameFilter L tmpqName vs (acc @ [tmp])
         else nameFilter L tmpqName vs acc)"

text \<open>getRecord on the table \<open>t\<close> of the zone; \<open>ks\<close> is the order of the \<^verbatim>\<open>range\<close>.\<close>

definition getRecord :: "dnslib \<Rightarrow> table \<Rightarrow> string list \<Rightarrow> string \<Rightarrow> uint16 \<Rightarrow> error + rr list" where
  "getRecord L t ks qName qQtype =
     (case (if qQtype = TypeANY then
              (case GetKeyDomain L qName of
                 Inl err \<Rightarrow> Inl err
               | Inr pfx \<Rightarrow> Inr (concat (map (index t) (filter (\<lambda>key. HasPrefix key pfx) ks))))
            else
              (case GetKey L qName qQtype of
                 Inl err \<Rightarrow> Inl err
               | Inr key \<Rightarrow> Inr (index t key))) of
        Inl err \<Rightarrow> Inl err
      | Inr matchedRecords \<Rightarrow>
         (let tmpqName = ToLower qName
          in if length matchedRecords = 0 then Inl RecordNotFound
             else nameFilter L tmpqName matchedRecords []))"

text \<open>The second loop of axfrRecord; the nil record is appended like any other.\<close>

fun axfrLoop :: "dnslib \<Rightarrow> string list \<Rightarrow> RR list \<Rightarrow> error + RR list" where
  "axfrLoop L [] acc = Inr acc"
| "axfrLoop L (v # vs) acc =
     (case NewRR L v of
        ParseFailed \<Rightarrow> Inl ParseError
      | Parsed tmp \<Rightarrow> axfrLoop L vs (acc @ [tmp]))"

definition axfrRecord :: "dnslib \<Rightarrow> Zone \<Rightarrow> table \<Rightarrow> string list \<Rightarrow> error + RR list" where
  "axfrRecord L z t ks =
     (let matchedRecords = concat (map (index t) ks);
          (nsRR', aRR) = nsRR L z
      in case axfrLoop L matchedRecords [soaRR L z, nsRR', aRR] of
           Inl err \<Rightarrow> Inl err
         | Inr rr \<Rightarrow> Inr (rr @ [soaRR L z]))"

section \<open>HandleRequest\<close>

subsection \<open>The query path\<close>

text \<open>
  How the body of the loop over the questions ends: it goes on to the next question, it
  returns from the handler, or it panics. Each carries the reply \<^verbatim>\<open>m\<close> as it is then.
\<close>

datatype flow = Continue Msg | Return Msg | Panicked Msg

text \<open>
  The \<^verbatim>\<open>for _, rr := range rrs\<close> loop under the label \<^verbatim>\<open>labelcname\<close>: it runs to the end
  of \<^verbatim>\<open>rrs\<close>, or leaves by \<^verbatim>\<open>goto labelcname\<close> with a new \<^verbatim>\<open>qName\<close>. \<open>answer\<close> is
  \<^verbatim>\<open>m.Answer\<close>, \<open>qt\<close> is \<^verbatim>\<open>q.Qtype\<close>.
\<close>

datatype scan = Exhausted "RR list" | Goto string "RR list"

fun cnameScan :: "string \<Rightarrow> uint16 \<Rightarrow> rr list \<Rightarrow> RR list \<Rightarrow> scan" where
  "cnameScan zn qt [] answer = Exhausted answer"
| "cnameScan zn qt (r # rs) answer =
     (if Rrtype r \<notin> set [TypeCNAME, qt] then cnameScan zn qt rs answer
      else let answer' = answer @ [Some r]
           in if Rrtype r = TypeCNAME \<and> HasSuffix (Target r) zn then Goto (Target r) answer'
              else cnameScan zn qt rs answer')"

text \<open>
  The code from the label \<^verbatim>\<open>labelcname\<close> to the end of the loop body. The source puts no
  bound on the number of jumps back to the label, so the function is partial: \<open>None\<close> is
  a run that never leaves the loop. \<open>j\<close> counts the lookups made for this question.
\<close>

partial_function (option) labelcname ::
  "dnslib \<Rightarrow> string \<Rightarrow> table \<Rightarrow> (nat \<Rightarrow> string list) \<Rightarrow> uint16 \<Rightarrow> nat \<Rightarrow> string \<Rightarrow> uint16 \<Rightarrow> Msg
   \<Rightarrow> flow option" where
  "labelcname L zn t ord qt j qName qQtype m =
     (case getRecord L t (ord j) qName qQtype of
        Inl err \<Rightarrow> Some (if err = NilDereference then Panicked m else Continue m)
      | Inr rrs \<Rightarrow>
         (case cnameScan zn qt rrs (Answer m) of
            Exhausted answer \<Rightarrow> Some (Continue (m\<lparr>Answer := answer\<rparr>))
          | Goto target answer \<Rightarrow>
             labelcname L zn t ord qt (Suc j) target TypeANY (m\<lparr>Answer := answer\<rparr>)))"

text \<open>The body of \<^verbatim>\<open>for _, q := range m.Question\<close>.\<close>

definition answerQuestion ::
  "dnslib \<Rightarrow> Zone \<Rightarrow> table \<Rightarrow> bool \<Rightarrow> (nat \<Rightarrow> string list) \<Rightarrow> Question \<Rightarrow> Msg \<Rightarrow> flow option" where
  "answerQuestion L z t invalidTsig ord q m =
     (let qZone = (ToLower (Qname q) = ToLower (zoneName z))
      in if qZone \<and> Qtype q = TypeNS then
           (let (nsRR', aRR) = nsRR L z
            in Some (Continue (m\<lparr>Answer := Answer m @ [nsRR'], Extra := Extra m @ [aRR]\<rparr>)))
         else if qZone \<and> Qtype q = TypeSOA then
           Some (Continue (m\<lparr>Answer := Answer m @ [soaRR L z]\<rparr>))
         else if qZone \<and> Qtype q = TypeAXFR then
           (if invalidTsig then Some (Return (m\<lparr>Rcode := RcodeNotAuth\<rparr>))
            else case axfrRecord L z t (ord 0) of
                   Inr rrs \<Rightarrow> Some (Continue (m\<lparr>Authoritative := True, Answer := rrs\<rparr>))
                 | Inl e \<Rightarrow> Some (Continue (m\<lparr>Authoritative := True\<rparr>)))
         else case getRecord L t (ord 0) (Qname q) (Qtype q) of
                Inr rrs \<Rightarrow> Some (Continue (m\<lparr>Answer := Answer m @ map Some rrs\<rparr>))
              | Inl e \<Rightarrow>
                 if e = NilDereference then Some (Panicked m)
                 else if Qtype q \<noteq> TypeCNAME then
                   labelcname L (zoneName z) t ord (Qtype q) 1 (Qname q) TypeCNAME m
                 else Some (Continue m))"

text \<open>The loop over the questions; \<open>i\<close> is the index of the next question.\<close>

fun queryLoop ::
  "dnslib \<Rightarrow> Zone \<Rightarrow> table \<Rightarrow> bool \<Rightarrow> (nat \<Rightarrow> nat \<Rightarrow> string list) \<Rightarrow> nat \<Rightarrow> Question list \<Rightarrow> Msg
   \<Rightarrow> flow option" where
  "queryLoop L z t invalidTsig ord i [] m = Some (Continue m)"
| "queryLoop L z t invalidTsig ord i (q # qs) m =
     (case answerQuestion L z t invalidTsig (ord i) q m of
        None \<Rightarrow> None
      | Some (Continue m') \<Rightarrow> queryLoop L z t invalidTsig ord (Suc i) qs m'
      | Some (Return m') \<Rightarrow> Some (Return m')
      | Some (Panicked m') \<Rightarrow> Some (Panicked m'))"

subsection \<open>The update path\<close>

text \<open>The two nested loops over \<^verbatim>\<open>r.Question\<close> and \<^verbatim>\<open>r.Ns\<close>, stopped by the first error.\<close>

fun nsLoop :: "dnslib \<Rightarrow> pad \<Rightarrow> Question \<Rightarrow> RR list \<Rightarrow> heap \<Rightarrow> error option \<times> heap" where
  "nsLoop L s question [] h = (None, h)"
| "nsLoop L s question (R # Rs) h =
     (case on_pad (UpdateRecord L R question) s h of
        (Some err, h') \<Rightarrow> (Some err, h')
      | (None, h') \<Rightarrow> nsLoop L s question Rs h')"

fun updateLoop :: "dnslib \<Rightarrow> pad \<Rightarrow> Question list \<Rightarrow> RR list \<Rightarrow> heap \<Rightarrow> error option \<times> heap" where
  "updateLoop L s [] Rs h = (None, h)"
| "updateLoop L s (question # qs) Rs h =
     (case nsLoop L s question Rs h of
        (Some err, h') \<Rightarrow> (Some err, h')
      | (None, h') \<Rightarrow> updateLoop L s qs Rs h')"

text \<open>
  What one call of the handler leaves behind: the reply that the deferred
  \<^verbatim>\<open>w.WriteMsg(m)\<close> sends, the zone, the store, and whether the handler panicked.
\<close>

record outcome =
  reply :: Msg
  zone :: Zone
  store :: heap
  panicked :: bool

definition updateRequest ::
  "dnslib \<Rightarrow> runtime \<Rightarrow> Zone \<Rightarrow> heap \<Rightarrow> Msg \<Rightarrow> bool \<Rightarrow> Msg \<Rightarrow> outcome" where
  "updateRequest L w z h r invalidTsig m =
     (case (if allowCIDR z \<noteq> [] then SourceAllowed w (allowCIDR z)
            else Some True) of
        None \<Rightarrow> \<lparr>reply = m, zone = z, store = h, panicked = True\<rparr>
      | Some False \<Rightarrow> \<lparr>reply = m\<lparr>Rcode := RcodeRefused\<rparr>, zone = z, store = h, panicked = False\<rparr>
      | Some True \<Rightarrow>
         if invalidTsig then
           \<lparr>reply = m\<lparr>Rcode := RcodeNotAuth\<rparr>, zone = z, store = h, panicked = False\<rparr>
         else
           (let pad = NewPad (Zone.records z)
            in case updateLoop L pad (Question r) (Ns r) h of
                 (Some err, h') \<Rightarrow>
                   if err = NilDereference
                   then \<lparr>reply = m, zone = z, store = h', panicked = True\<rparr>
                   else \<lparr>reply = m\<lparr>Rcode := RcodeRefused\<rparr>, zone = z, store = h',
                         panicked = False\<rparr>
               | (None, h') \<Rightarrow>
                   (case writeDB w z (Records pad) h' of
                      (Some err, z', h'') \<Rightarrow>
                        \<lparr>reply = m\<lparr>Rcode := RcodeRefused\<rparr>, zone = z', store = h'',
                         panicked = False\<rparr>
                    | (None, z', h'') \<Rightarrow>
                        \<lparr>reply = m, zone = z', store = h'', panicked = False\<rparr>)))"

subsection \<open>The handler\<close>

text \<open>
  HandleRequest for the zone \<open>z\<close> in the store \<open>h\<close> on the request \<open>r\<close>. The two deferred
  calls run at every exit, the panic included: \<^verbatim>\<open>m.SetTsig\<close> when the request's
  signature was valid, then \<^verbatim>\<open>w.WriteMsg(m)\<close>. \<open>None\<close> is a handler that never returns.
  Logging, \<^verbatim>\<open>m.Compress\<close> and the mutex are left out.
\<close>

definition HandleRequest :: "dnslib \<Rightarrow> runtime \<Rightarrow> Zone \<Rightarrow> heap \<Rightarrow> Msg \<Rightarrow> outcome option" where
  "HandleRequest L w z h r =
     (let m = SetReply L r;
          invalidTsig = (\<not> (IsTsig L r \<and> TsigStatusOk w));
          deferred = (\<lambda>m. if invalidTsig then m else SetTsig L r m)
      in if Opcode r = OpcodeQuery then
           (case queryLoop L z (cells h (Zone.records z)) invalidTsig (rangeOrder w) 0
                   (Question m) m of
              None \<Rightarrow> None
            | Some (Continue m') \<Rightarrow>
                Some \<lparr>reply = deferred m', zone = z, store = h, panicked = False\<rparr>
            | Some (Return m') \<Rightarrow>
                Some \<lparr>reply = deferred m', zone = z, store = h, panicked = False\<rparr>
            | Some (Panicked m') \<Rightarrow>
                Some \<lparr>reply = deferred m', zone = z, store = h, panicked = True\<rparr>)
         else if Opcode r = OpcodeUpdate then
           (let out = updateRequest L w z h r invalidTsig m
            in Some (out\<lparr>reply := deferred (reply out)\<rparr>))
         else Some \<lparr>reply = deferred m, zone = z, store = h, panicked = False\<rparr>)"

section \<open>A reference instance of the library\<close>

text \<open>
  To run the engine on concrete requests the library's functions are instantiated by
  \<open>miekg\<close>: what the library computes on names without escapes and on records in the
  form its own \<^verbatim>\<open>String\<close> methods print, name, TTL, class, type and data separated by
  tabs (the three synthesized records are written with blanks). It is used in the closed
  theorems only.
\<close>

fun splitOn :: "(char \<Rightarrow> bool) \<Rightarrow> string \<Rightarrow> string list" where
  "splitOn sep [] = [[]]"
| "splitOn sep (c # cs) =
     (if sep c then [] # splitOn sep cs
      else case splitOn sep cs of
             [] \<Rightarrow> [[c]]
           | w # ws \<Rightarrow> (c # w) # ws)"

definition fields :: "string \<Rightarrow> string list" where
  "fields s = filter (\<lambda>w. w \<noteq> []) (splitOn (\<lambda>c. c = CHR '' '' \<or> c = CHR 0x09) s)"

definition labelsOf :: "string \<Rightarrow> string list" where
  "labelsOf s = filter (\<lambda>w. w \<noteq> []) (splitOn (\<lambda>c. c = CHR ''.'') s)"

text \<open>
  A name is accepted when it is not empty, has at most 255 bytes and no escape, and is
  the root or a sequence of non-empty labels of at most 63 bytes, with or without the
  final dot.
\<close>

definition isDomainName :: "string \<Rightarrow> bool" where
  "isDomainName s =
     (s \<noteq> [] \<and> length s \<le> 255 \<and> CHR 0x5C \<notin> set s \<and>
      (s = ''.'' \<or>
       (let ls = splitOn (\<lambda>c. c = CHR ''.'') s;
            body = (if last ls = [] then butlast ls else ls)
        in body \<noteq> [] \<and> list_all (\<lambda>l. l \<noteq> [] \<and> length l \<le> 63) body)))"

definition typeNames :: "(uint16 \<times> string) list" where
  "typeNames =
     [(1, ''A''), (2, ''NS''), (5, ''CNAME''), (6, ''SOA''), (12, ''PTR''), (15, ''MX''),
      (16, ''TXT''), (28, ''AAAA''), (33, ''SRV''), (250, ''TSIG''), (252, ''AXFR''),
      (255, ''ANY'')]"

definition classNames :: "(uint16 \<times> string) list" where
  "classNames = [(1, ''IN''), (3, ''CH''), (4, ''HS''), (254, ''NONE''), (255, ''ANY'')]"

definition typeString :: "uint16 \<Rightarrow> string" where
  "typeString t = (case map_of typeNames t of Some s \<Rightarrow> s | None \<Rightarrow> ''TYPE'' @ showNat (unat t))"

definition classString :: "uint16 \<Rightarrow> string" where
  "classString c = (case map_of classNames c of Some s \<Rightarrow> s | None \<Rightarrow> ''CLASS'' @ showNat (unat c))"

definition codeOf :: "(uint16 \<times> string) list \<Rightarrow> string \<Rightarrow> uint16 option" where
  "codeOf names s = map_option fst (find (\<lambda>p. snd p = s) names)"

fun readNat :: "string \<Rightarrow> nat \<Rightarrow> nat option" where
  "readNat [] acc = Some acc"
| "readNat (c # cs) acc =
     (let d = (of_char c :: nat)
      in if 48 \<le> d \<and> d \<le> 57 then readNat cs (10 * acc + (d - 48)) else None)"

definition rrString :: "rr \<Rightarrow> string" where
  "rrString r =
     Join [Name r, showNat (unat (Ttl r)), classString (Class r), typeString (Rrtype r), Rdata r]
          [CHR 0x09]"

definition newRR :: "string \<Rightarrow> parsed" where
  "newRR s =
     (case fields s of
        [] \<Rightarrow> Parsed None
      | name # ttl # cls # ty # rdata \<Rightarrow>
          (case (readNat ttl 0, codeOf classNames cls, codeOf typeNames ty) of
             (Some n, Some c, Some t) \<Rightarrow>
               if isDomainName name \<and> n < 2 ^ 32 \<and> rdata \<noteq> []
               then Parsed (Some \<lparr>Name = name, Rrtype = t, Class = c, Ttl = of_nat n,
                                   Rdlength = 0, Rdata = Join rdata '' ''\<rparr>)
               else ParseFailed
           | _ \<Rightarrow> ParseFailed)
      | _ \<Rightarrow> ParseFailed)"

definition setReply :: "Msg \<Rightarrow> Msg" where
  "setReply r =
     \<lparr>Opcode = Opcode r, Rcode = RcodeSuccess, Authoritative = False,
      Question = take 1 (Question r), Answer = [], Ns = [], Extra = []\<rparr>"

definition isTsig :: "Msg \<Rightarrow> bool" where
  "isTsig r =
     (case rev (Extra r) of
        Some x # _ \<Rightarrow> Rrtype x = 250
      | _ \<Rightarrow> False)"

definition setTsig :: "Msg \<Rightarrow> Msg \<Rightarrow> Msg" where
  "setTsig r m =
     (case rev (Extra r) of
        Some x # _ \<Rightarrow>
          m\<lparr>Extra := Extra m @ [Some \<lparr>Name = Name x, Rrtype = 250, Class = ClassANY, Ttl = 0,
                                      Rdlength = 0, Rdata = []\<rparr>]\<rparr>
      | _ \<Rightarrow> m)"

definition miekg :: dnslib where
  "miekg =
     \<lparr>IsDomainName = isDomainName, SplitDomainName = labelsOf, TypeString = typeString,
      NewRR = newRR, RRString = rrString, SetReply = setReply, IsTsig = isTsig,
      SetTsig = setTsig\<rparr>"

section \<open>Auxiliary notions of the statements\<close>

text \<open>
  The comparison that omitRecord makes between a stored string and the request: the
  stored string parses to a record whose string, with TTL 0 and class NONE, is that of
  the request up to the case of letters.
\<close>

definition matchesRequest :: "dnslib \<Rightarrow> rr \<Rightarrow> string \<Rightarrow> bool" where
  "matchesRequest L r v =
     (case NewRR L v of
        Parsed (Some tmp) \<Rightarrow>
          ToLower (RRString L (tmp\<lparr>Ttl := 0, Class := ClassNONE\<rparr>)) = ToLower (RRString L r)
      | _ \<Rightarrow> False)"

text \<open>
  A record exists at the name \<open>N\<close>: some stored string parses to a record whose owner is
  \<open>N\<close> up to the case of letters (the comparison of names that getRecord makes).
\<close>

definition recordExistsAt :: "dnslib \<Rightarrow> table \<Rightarrow> string \<Rightarrow> bool" where
  "recordExistsAt L t N =
     (\<exists>key \<in> dom t. \<exists>v \<in> set (index t key).
        case NewRR L v of Parsed (Some x) \<Rightarrow> ToLower (Name x) = ToLower N | _ \<Rightarrow> False)"

text \<open>
  No name has both its CNAME key and a key of another type in the table: when the CNAME
  key of a name is present, it is the only key of that name.
\<close>

definition exclusive :: "dnslib \<Rightarrow> table \<Rightarrow> bool" where
  "exclusive L t =
     (\<forall>N ty ckey key. GetKey L N TypeCNAME = Inr ckey \<longrightarrow> GetKey L N ty = Inr key \<longrightarrow>
        ckey \<in> dom t \<longrightarrow> key \<in> dom t \<longrightarrow> key = ckey)"

text \<open>
  The CNAME records of the table whose target is inside the zone \<open>zn\<close> go down in the
  rank \<open>rk\<close> from the owner to the target, names taken in lower case. A table with such
  a rank has no cyclic chain of CNAME records inside the zone.
\<close>

definition descending :: "dnslib \<Rightarrow> string \<Rightarrow> table \<Rightarrow> (string \<Rightarrow> nat) \<Rightarrow> bool" where
  "descending L zn t rk =
     (\<forall>key v x. v \<in> set (index t key) \<longrightarrow> NewRR L v = Parsed (Some x) \<longrightarrow>
        Rrtype x = TypeCNAME \<longrightarrow> HasSuffix (Target x) zn \<longrightarrow>
        rk (ToLower (Target x)) < rk (ToLower (Name x)))"

section \<open>Concrete zones, tables and requests\<close>

definition inRR :: "string \<Rightarrow> uint16 \<Rightarrow> string \<Rightarrow> rr" where
  "inRR name ty rdata =
     \<lparr>Name = name, Rrtype = ty, Class = ClassINET, Ttl = 3600, Rdlength = 0, Rdata = rdata\<rparr>"

definition fooA1 :: rr where "fooA1 = inRR ''foo.example.com.'' TypeA ''10.0.0.1''"
definition fooA2 :: rr where "fooA2 = inRR ''foo.example.com.'' TypeA ''10.0.0.2''"
definition fooCNAME :: rr where "fooCNAME = inRR ''foo.example.com.'' TypeCNAME ''bar.example.com.''"
definition foobarA :: rr where "foobarA = inRR ''foobar.example.com.'' TypeA ''10.0.0.3''"
definition aCNAME :: rr where "aCNAME = inRR ''a.example.com.'' TypeCNAME ''b.example.com.''"
definition bCNAME :: rr where "bCNAME = inRR ''b.example.com.'' TypeCNAME ''a.example.com.''"
definition bA :: rr where "bA = inRR ''b.example.com.'' TypeA ''10.0.0.9''"
definition badA :: rr where "badA = inRR ''foo..example.com.'' TypeA ''10.0.0.1''"

text \<open>The request record that deletes \<open>fooA1\<close> from its RRset: class NONE and TTL 0.\<close>

definition delFooA1 :: rr where
  "delFooA1 = fooA1\<lparr>Class := ClassNONE, Ttl := 0\<rparr>"

text \<open>The request record that deletes \<open>fooCNAME\<close> from its RRset.\<close>

definition delFooCNAME :: rr where
  "delFooCNAME = fooCNAME\<lparr>Class := ClassNONE, Ttl := 0\<rparr>"

text \<open>The strings that an add of these records stores.\<close>

definition line :: "string \<Rightarrow> string \<Rightarrow> string \<Rightarrow> string" where
  "line name ty rdata = Join [name, ''3600'', ''IN'', ty, rdata] [CHR 0x09]"

definition tabFooA :: table where
  "tabFooA = [''com.example.foo_A'' \<mapsto>
                [line ''foo.example.com.'' ''A'' ''10.0.0.1'',
                 line ''foo.example.com.'' ''A'' ''10.0.0.2'']]"

definition tabFooA2 :: table where
  "tabFooA2 = [''com.example.foo_A'' \<mapsto> [line ''foo.example.com.'' ''A'' ''10.0.0.2'']]"

definition tabFooCNAME :: table where
  "tabFooCNAME = [''com.example.foo_CNAME'' \<mapsto>
                    [line ''foo.example.com.'' ''CNAME'' ''bar.example.com.'']]"

text \<open>The table \<open>tabFooCNAME\<close> after its one record has been deleted from its RRset.\<close>

definition tabFooNoCNAME :: table where
  "tabFooNoCNAME = [''com.example.foo_CNAME'' \<mapsto> []]"

definition tabFoobar :: table where
  "tabFoobar = [''com.example.foobar_A'' \<mapsto> [line ''foobar.example.com.'' ''A'' ''10.0.0.3'']]"

definition tabChain :: table where
  "tabChain = [''com.example.a_CNAME'' \<mapsto> [line ''a.example.com.'' ''CNAME'' ''b.example.com.''],
               ''com.example.b_A'' \<mapsto> [line ''b.example.com.'' ''A'' ''10.0.0.9'']]"

definition tabCycle :: table where
  "tabCycle = [''com.example.a_CNAME'' \<mapsto> [line ''a.example.com.'' ''CNAME'' ''b.example.com.''],
               ''com.example.b_CNAME'' \<mapsto> [line ''b.example.com.'' ''CNAME'' ''a.example.com.'']]"

text \<open>The zone \<^verbatim>\<open>example.com.\<close> with its table at reference 0 of the store.\<close>

definition exampleZone :: Zone where
  "exampleZone =
     \<lparr>zoneName = ''example.com.'', nsName = ''ns.example.com.'', localAddr = ''192.0.2.1'',
      filename = ''example.db'', mtime = 1700000000, records = 0, allowCIDR = []\<rparr>"

definition storeOf :: "table \<Rightarrow> heap" where
  "storeOf t = \<lparr>cells = (\<lambda>_. Map.empty)(0 := t), fresh = 1\<rparr>"

text \<open>
  A runtime in which the signature check passed, the file can be written, and every
  \<^verbatim>\<open>range\<close> visits the keys in the order \<open>ks\<close>.
\<close>

definition runtimeOf :: "string list \<Rightarrow> runtime" where
  "runtimeOf ks =
     \<lparr>TsigStatusOk = True, SourceAllowed = (\<lambda>_. Some True), now = 1700000100,
      fileIO = WriteOk, rangeOrder = (\<lambda>i j. ks)\<rparr>"

definition tsigRR :: rr where
  "tsigRR = \<lparr>Name = ''key.example.com.'', Rrtype = 250, Class = ClassANY, Ttl = 0,
             Rdlength = 0, Rdata = []\<rparr>"

definition question :: "string \<Rightarrow> uint16 \<Rightarrow> Question" where
  "question name ty = \<lparr>Qname = name, Qtype = ty, Qclass = ClassINET\<rparr>"

text \<open>A query with one question; \<open>tsig\<close> adds the TSIG record.\<close>

definition queryOf :: "string \<Rightarrow> uint16 \<Rightarrow> bool \<Rightarrow> Msg" where
  "queryOf name ty tsig =
     \<lparr>Opcode = OpcodeQuery, Rcode = RcodeSuccess, Authoritative = False,
      Question = [question name ty], Answer = [], Ns = [],
      Extra = (if tsig then [Some tsigRR] else [])\<rparr>"

text \<open>A signed update of the zone with the batch \<open>Rs\<close> in its authority section.\<close>

definition updateOf :: "rr list \<Rightarrow> Msg" where
  "updateOf Rs =
     \<lparr>Opcode = OpcodeUpdate, Rcode = RcodeSuccess, Authoritative = False,
      Question = [question ''example.com.'' TypeSOA], Answer = [], Ns = map Some Rs,
      Extra = [Some tsigRR]\<rparr>"

text \<open>The three synthesized records of \<open>exampleZone\<close>.\<close>

definition soaExample :: rr where
  "soaExample =
     inRR ''example.com.'' TypeSOA ''localhost. nobody. 1700000000 28800 7200 2419200 1200''"

definition nsExample :: rr where
  "nsExample = inRR ''example.com.'' TypeNS ''ns.example.com.''"

definition aExample :: rr where
  "aExample = inRR ''ns.example.com.'' TypeA ''192.0.2.1''"

text \<open>A rank for \<open>tabChain\<close>: the owner of its CNAME record is above everything else.\<close>

definition chainRank :: "string \<Rightarrow> nat" where
  "chainRank n = (if n = ''a.example.com.'' then 1 else 0)"

text \<open>
  The states of the loop on the cyclic table: whoever is looked up, the next lookup is
  again one of them. No run that starts in one of them ends.
\<close>

definition inCycle :: "string \<Rightarrow> uint16 \<Rightarrow> bool" where
  "inCycle qName qQtype =
     ((qName = ''a.example.com.'' \<and> (qQtype = TypeCNAME \<or> qQtype = TypeANY)) \<or>
      (qName = ''b.example.com.'' \<and> qQtype = TypeANY))"

section \<open>Evaluation and basic facts\<close>

lemmas consts_defs = TypeA_def TypeNS_def TypeCNAME_def TypeSOA_def TypeAXFR_def TypeANY_def
  ClassINET_def ClassNONE_def ClassANY_def OpcodeQuery_def OpcodeUpdate_def
  RcodeSuccess_def RcodeRefused_def RcodeNotAuth_def

lemmas lib_defs = miekg_def isDomainName_def labelsOf_def typeString_def typeNames_def
  classString_def classNames_def codeOf_def fields_def newRR_def rrString_def setReply_def
  isTsig_def setTsig_def digit_def showNat.simps

lemmas go_defs = ToLower_def toLowerChar_def HasPrefix_def HasSuffix_def suffix_to_prefix
  Target_def index_def Let_def

lemmas key_defs = GetKeyDomain_def GetKey_def

lemmas input_defs = inRR_def fooA1_def fooA2_def fooCNAME_def foobarA_def aCNAME_def
  bCNAME_def bA_def badA_def delFooA1_def delFooCNAME_def line_def tabFooA_def tabFooA2_def
  tabFooCNAME_def tabFooNoCNAME_def
  tabFoobar_def tabChain_def tabCycle_def exampleZone_def storeOf_def runtimeOf_def
  tsigRR_def question_def queryOf_def updateOf_def soaExample_def nsExample_def aExample_def

lemmas pad_defs = UpdateRecord_def storeRecord_def hasRecords_def omitRecord_def
  deleteRecord_def deleteRecords_def on_pad_def NewPad_def Records_def

lemmas handler_defs = HandleRequest_def updateRequest_def writeDB_def alloc_def
  answerQuestion_def getRecord_def axfrRecord_def soaRR_def nsRR_def dropErr_def showInt_def

lemma type_distinct [simp]:
  "TypeAXFR \<noteq> TypeNS" "TypeAXFR \<noteq> TypeSOA" "TypeAXFR \<noteq> TypeCNAME" "TypeAXFR \<noteq> TypeANY"
  "TypeA \<noteq> TypeCNAME" "TypeA \<noteq> TypeANY" "TypeCNAME \<noteq> TypeANY" "TypeA \<noteq> TypeNS"
  "TypeA \<noteq> TypeSOA" "TypeA \<noteq> TypeAXFR"
  by (simp_all add: consts_defs)

lemma class_distinct [simp]:
  "ClassINET \<noteq> ClassANY" "ClassNONE \<noteq> ClassANY" "ClassINET \<noteq> ClassNONE"
  "ClassANY \<noteq> ClassINET" "ClassANY \<noteq> ClassNONE" "ClassNONE \<noteq> ClassINET"
  by (simp_all add: consts_defs)

lemma GetKey_Inr:
  "GetKey L d ty = Inr k \<longleftrightarrow> (\<exists>p. GetKeyDomain L d = Inr p \<and> k = p @ ''_'' @ TypeString L ty)"
  by (auto simp: GetKey_def split: sum.splits)

lemma GetKeyDomain_Inr_valid: "GetKeyDomain L d = Inr p \<Longrightarrow> IsDomainName L d"
  by (auto simp: GetKeyDomain_def split: if_splits)

lemma GetKeyDomain_valid_Inr: "IsDomainName L d \<Longrightarrow> \<exists>p. GetKeyDomain L d = Inr p"
  by (simp add: GetKeyDomain_def Let_def)

lemma GetKey_Inr_valid: "GetKey L d ty = Inr k \<Longrightarrow> IsDomainName L d"
  by (auto simp: GetKey_Inr dest: GetKeyDomain_Inr_valid)

section \<open>Single-record operations of the pad\<close>

lemma storeRecord_frame:
  "GetKey L (Name r) (Rrtype r) \<noteq> Inr k \<Longrightarrow> snd (storeRecord L r t) k = t k"
  by (auto simp: storeRecord_def split: sum.splits if_splits option.splits)

lemma omitRecord_frame:
  "GetKey L (Name r) (Rrtype r) \<noteq> Inr k \<Longrightarrow> snd (omitRecord L r t) k = t k"
  by (auto simp: omitRecord_def split: sum.splits if_splits option.splits)

text \<open>
  C10. An add (class IN) and a delete of one RR (class NONE, TTL 0) change at most the
  list stored under the key of the record's name and type: every other key of the table
  maps to the same list before and after, whether the operation succeeds or not.
\<close>

theorem single_record_frame:
  assumes "Class r = ClassINET \<or> (Class r = ClassNONE \<and> Ttl r = 0)"
      and "GetKey L (Name r) (Rrtype r) \<noteq> Inr k"
  shows "snd (UpdateRecord L (Some r) q t) k = t k"
  using assms by (auto simp: UpdateRecord_def storeRecord_frame omitRecord_frame)

lemma key_fooA: "GetKey miekg ''foo.example.com.'' TypeA = Inr ''com.example.foo_A''"
  by (simp add: key_defs lib_defs go_defs consts_defs)

theorem single_record_frame_witness:
  "Class fooA1 = ClassINET \<and>
   GetKey miekg (Name fooA1) (Rrtype fooA1) = Inr ''com.example.foo_A'' \<and>
   fst (UpdateRecord miekg (Some fooA1) (question ''example.com.'' TypeSOA) tabFoobar) = None \<and>
   snd (UpdateRecord miekg (Some fooA1) (question ''example.com.'' TypeSOA) tabFoobar)
     ''com.example.foobar_A'' = tabFoobar ''com.example.foobar_A''"
proof -
  have c: "Class fooA1 = ClassINET \<or> (Class fooA1 = ClassNONE \<and> Ttl fooA1 = 0)"
    by (simp add: fooA1_def inRR_def)
  have k: "GetKey miekg (Name fooA1) (Rrtype fooA1) = Inr ''com.example.foo_A''"
    using key_fooA by (simp add: fooA1_def inRR_def)
  then have k': "GetKey miekg (Name fooA1) (Rrtype fooA1) \<noteq> Inr ''com.example.foobar_A''"
    by simp
  have ok: "fst (UpdateRecord miekg (Some fooA1) (question ''example.com.'' TypeSOA) tabFoobar) = None"
    by (simp add: pad_defs key_defs lib_defs go_defs consts_defs input_defs)
  show ?thesis
    using single_record_frame [OF c k', of "question ''example.com.'' TypeSOA" tabFoobar] k ok
    by (simp add: fooA1_def inRR_def)
qed

lemma omitLoop_filter:
  "\<forall>v \<in> set vs. \<exists>x. NewRR L v = Parsed (Some x) \<Longrightarrow>
   omitLoop L r vs acc = Inr (acc @ filter (\<lambda>v. \<not> matchesRequest L r v) vs)"
  by (induction vs arbitrary: acc) (auto simp: matchesRequest_def)

text \<open>
  C9. For an update RR with class NONE and TTL 0 whose name and type have the key \<open>key\<close>,
  in a table whose strings under that key parse to records: the update returns no error
  and removes from the list under \<open>key\<close> exactly the strings that match the request (the
  stored record with TTL 0 and class NONE has the request's string, up to the case of
  letters), the others staying in their order; every other key is as before. It changes
  nothing when the key is absent or no stored string matches.
\<close>

theorem delete_one_rr:
  assumes "Class r = ClassNONE" and "Ttl r = 0"
      and "GetKey L (Name r) (Rrtype r) = Inr key"
      and "\<forall>v \<in> set (index t key). \<exists>x. NewRR L v = Parsed (Some x)"
  shows "UpdateRecord L (Some r) q t =
           (None, if key \<in> dom t
                  then t(key \<mapsto> filter (\<lambda>v. \<not> matchesRequest L r v) (index t key))
                  else t) \<and>
         (key \<notin> dom t \<or> (\<forall>v \<in> set (index t key). \<not> matchesRequest L r v) \<longrightarrow>
          UpdateRecord L (Some r) q t = (None, t))"
proof -
  have valid: "IsDomainName L (Name r)"
    using assms(3) by (rule GetKey_Inr_valid)
  have main: "UpdateRecord L (Some r) q t =
           (None, if key \<in> dom t
                  then t(key \<mapsto> filter (\<lambda>v. \<not> matchesRequest L r v) (index t key))
                  else t)"
  proof (cases "t key")
    case None
    then show ?thesis
      using assms valid by (simp add: UpdateRecord_def omitRecord_def domIff)
  next
    case (Some vs)
    then have "omitLoop L r vs [] = Inr (filter (\<lambda>v. \<not> matchesRequest L r v) vs)"
      using assms(4) omitLoop_filter [of vs L r "[]"] by (simp add: index_def)
    then show ?thesis
      using assms valid Some by (simp add: UpdateRecord_def omitRecord_def index_def domI)
  qed
  have noop: "UpdateRecord L (Some r) q t = (None, t)"
    if a: "key \<notin> dom t \<or> (\<forall>v \<in> set (index t key). \<not> matchesRequest L r v)"
  proof (cases "t key")
    case None
    then show ?thesis using main by (simp add: domIff)
  next
    case (Some vs)
    then have "filter (\<lambda>v. \<not> matchesRequest L r v) (index t key) = vs"
      using a by (auto simp: index_def)
    then show ?thesis using main Some by (simp add: domI fun_upd_idem)
  qed
  show ?thesis using main noop by blast
qed

lemma parse_fooA1:
  "NewRR miekg (line ''foo.example.com.'' ''A'' ''10.0.0.1'') = Parsed (Some fooA1)"
  by (simp add: lib_defs input_defs consts_defs)

lemma parse_fooA2:
  "NewRR miekg (line ''foo.example.com.'' ''A'' ''10.0.0.2'') = Parsed (Some fooA2)"
  by (simp add: lib_defs input_defs consts_defs)

lemma matches_fooA1:
  "matchesRequest miekg delFooA1 (line ''foo.example.com.'' ''A'' ''10.0.0.1'')"
  unfolding matchesRequest_def parse_fooA1
  by (simp add: lib_defs input_defs consts_defs go_defs)

lemma matches_fooA2:
  "\<not> matchesRequest miekg delFooA1 (line ''foo.example.com.'' ''A'' ''10.0.0.2'')"
  unfolding matchesRequest_def parse_fooA2
  by (simp add: lib_defs input_defs consts_defs go_defs)

theorem delete_one_rr_witness:
  "Class delFooA1 = ClassNONE \<and> Ttl delFooA1 = 0 \<and>
   GetKey miekg (Name delFooA1) (Rrtype delFooA1) = Inr ''com.example.foo_A'' \<and>
   UpdateRecord miekg (Some delFooA1) (question ''example.com.'' TypeSOA) tabFooA
     = (None, tabFooA2) \<and>
   UpdateRecord miekg (Some delFooA1) (question ''example.com.'' TypeSOA) tabFoobar
     = (None, tabFoobar)"
proof -
  have c: "Class delFooA1 = ClassNONE" and l: "Ttl delFooA1 = 0"
    by (simp_all add: delFooA1_def)
  have k: "GetKey miekg (Name delFooA1) (Rrtype delFooA1) = Inr ''com.example.foo_A''"
    using key_fooA by (simp add: delFooA1_def fooA1_def inRR_def)
  have ix: "index tabFooA ''com.example.foo_A'' =
              [line ''foo.example.com.'' ''A'' ''10.0.0.1'', line ''foo.example.com.'' ''A'' ''10.0.0.2'']"
    by (simp add: index_def tabFooA_def)
  have p: "\<forall>v \<in> set (index tabFooA ''com.example.foo_A''). \<exists>x. NewRR miekg v = Parsed (Some x)"
    unfolding ix using parse_fooA1 parse_fooA2 by simp
  have p': "\<forall>v \<in> set (index tabFoobar ''com.example.foo_A''). \<exists>x. NewRR miekg v = Parsed (Some x)"
    by (simp add: index_def tabFoobar_def)
  have d: "''com.example.foo_A'' \<in> dom tabFooA" "''com.example.foo_A'' \<notin> dom tabFoobar"
    by (simp_all add: tabFooA_def tabFoobar_def)
  have "UpdateRecord miekg (Some delFooA1) (question ''example.com.'' TypeSOA) tabFooA
          = (None, tabFooA2)"
    using delete_one_rr [OF c l k p, of "question ''example.com.'' TypeSOA"] d(1)
          matches_fooA1 matches_fooA2
    by (simp add: ix) (simp add: tabFooA_def tabFooA2_def)
  moreover have "UpdateRecord miekg (Some delFooA1) (question ''example.com.'' TypeSOA) tabFoobar
          = (None, tabFoobar)"
    using delete_one_rr [OF c l k p', of "question ''example.com.'' TypeSOA"] d(2) by simp
  ultimately show ?thesis using c l k by simp
qed

section \<open>Malformed owner names in an update\<close>

lemma on_pad_noop:
  "method (cells h (pad.records s)) = (e, cells h (pad.records s)) \<Longrightarrow> on_pad method s h = (e, h)"
  by (simp add: on_pad_def)

lemma UpdateRecord_invalid:
  "\<not> IsDomainName L (Name r) \<Longrightarrow> UpdateRecord L (Some r) q t = (None, t)"
  by (simp add: UpdateRecord_def)

lemma nsLoop_append_skip:
  assumes "\<And>h. on_pad (UpdateRecord L R q) s h = (None, h)"
  shows "nsLoop L s q (Rs1 @ R # Rs2) h = nsLoop L s q (Rs1 @ Rs2) h"
proof (induction Rs1 arbitrary: h)
  case Nil
  then show ?case using assms by simp
next
  case (Cons a Rs1)
  then show ?case by (simp split: prod.splits option.splits)
qed

text \<open>
  C5, as the code has it. An update RR whose owner name is not a well-formed DNS name is
  skipped: UpdateRecord returns no error and leaves the table as it is, so the loop over
  a batch that contains the RR ends as the loop over the batch without it.
\<close>

theorem invalid_name_skipped:
  assumes "\<not> IsDomainName L (Name r)"
  shows "UpdateRecord L (Some r) q t = (None, t) \<and>
         nsLoop L s q (Rs1 @ Some r # Rs2) h = nsLoop L s q (Rs1 @ Rs2) h"
proof -
  have "\<And>h. on_pad (UpdateRecord L (Some r) q) s h = (None, h)"
    using assms by (simp add: on_pad_noop UpdateRecord_invalid)
  then have "nsLoop L s q (Rs1 @ Some r # Rs2) h = nsLoop L s q (Rs1 @ Rs2) h"
    by (rule nsLoop_append_skip)
  then show ?thesis using assms by (simp add: UpdateRecord_invalid)
qed

lemma badA_invalid: "\<not> IsDomainName miekg (Name badA)"
  by (simp add: lib_defs input_defs)

theorem invalid_name_skipped_witness:
  "\<not> IsDomainName miekg (Name badA) \<and>
   UpdateRecord miekg (Some badA) (question ''example.com.'' TypeSOA) tabFooA = (None, tabFooA) \<and>
   nsLoop miekg (NewPad 0) (question ''example.com.'' TypeSOA)
     ([Some fooA1] @ Some badA # [Some fooA2]) (storeOf Map.empty)
   = nsLoop miekg (NewPad 0) (question ''example.com.'' TypeSOA)
     ([Some fooA1] @ [Some fooA2]) (storeOf Map.empty)"
  using invalid_name_skipped [OF badA_invalid, where q = "question ''example.com.'' TypeSOA"
          and t = tabFooA and s = "NewPad 0" and ?Rs1.0 = "[Some fooA1]"
          and ?Rs2.0 = "[Some fooA2]" and h = "storeOf Map.empty"]
        badA_invalid
  by blast

text \<open>
  The claim C5 fails on the code: the batch that holds only the record \<open>badA\<close>, whose
  owner name \<^verbatim>\<open>foo..example.com.\<close> has an empty label, is applied without an error and the
  reply has the code NOERROR.
\<close>

theorem invalid_name_not_surfaced:
  "\<not> IsDomainName miekg (Name badA) \<and>
   fst (updateLoop miekg (NewPad 0) [question ''example.com.'' TypeSOA] [Some badA]
          (storeOf tabFooA)) = None \<and>
   map_option (\<lambda>out. (Rcode (reply out), panicked out))
     (HandleRequest miekg (runtimeOf []) exampleZone (storeOf tabFooA) (updateOf [badA]))
   = Some (RcodeSuccess, False)"
proof -
  have "fst (updateLoop miekg (NewPad 0) [question ''example.com.'' TypeSOA] [Some badA]
          (storeOf tabFooA)) = None"
    by (simp add: pad_defs lib_defs input_defs)
  moreover have "map_option (\<lambda>out. (Rcode (reply out), panicked out))
     (HandleRequest miekg (runtimeOf []) exampleZone (storeOf tabFooA) (updateOf [badA]))
   = Some (RcodeSuccess, False)"
    by (simp add: handler_defs pad_defs lib_defs consts_defs input_defs)
  ultimately show ?thesis using badA_invalid by simp
qed

section \<open>Mutual exclusion of CNAME and other types; duplicates\<close>

lemma key_split:
  assumes "a @ ''_'' @ b = a' @ ''_'' @ b'" and "CHR ''_'' \<notin> set b" and "CHR ''_'' \<notin> set b'"
  shows "a = a' \<and> b = b'"
proof -
  from assms(1) obtain us where
    "(a = a' @ us \<and> us @ ''_'' @ b = ''_'' @ b') \<or> (a @ us = a' \<and> ''_'' @ b = us @ ''_'' @ b')"
    by (auto simp: append_eq_append_conv2)
  then show ?thesis
  proof
    assume h: "a = a' @ us \<and> us @ ''_'' @ b = ''_'' @ b'"
    show ?thesis
    proof (cases us)
      case Nil then show ?thesis using h by simp
    next
      case (Cons u us')
      then have "b' = us' @ ''_'' @ b" using h by simp
      then show ?thesis using assms(3) by simp
    qed
  next
    assume h: "a @ us = a' \<and> ''_'' @ b = us @ ''_'' @ b'"
    show ?thesis
    proof (cases us)
      case Nil then show ?thesis using h by simp
    next
      case (Cons u us')
      then have "b = us' @ ''_'' @ b'" using h by simp
      then show ?thesis using assms(2) by simp
    qed
  qed
qed

lemma storeRecord_error_unchanged: "fst (storeRecord L r t) \<noteq> None \<Longrightarrow> snd (storeRecord L r t) = t"
  by (auto simp: storeRecord_def split: sum.splits if_splits option.splits)

lemma omitRecord_error_unchanged: "fst (omitRecord L r t) \<noteq> None \<Longrightarrow> snd (omitRecord L r t) = t"
  by (auto simp: omitRecord_def split: sum.splits if_splits option.splits)

lemma deleteRecord_error_unchanged: "fst (deleteRecord L d ty t) \<noteq> None \<Longrightarrow> snd (deleteRecord L d ty t) = t"
  by (auto simp: deleteRecord_def deleteRecords_def split: sum.splits if_splits option.splits)

lemma UpdateRecord_error_unchanged:
  "fst (UpdateRecord L R q t) \<noteq> None \<Longrightarrow> snd (UpdateRecord L R q t) = t"
  by (auto simp: UpdateRecord_def storeRecord_error_unchanged omitRecord_error_unchanged
        deleteRecord_error_unchanged split: option.splits if_splits)

lemma storeRecord_cases:
  "snd (storeRecord L r t) = t \<or>
   (\<exists>pfx v. GetKeyDomain L (Name r) = Inr pfx \<and>
      snd (storeRecord L r t) = t(pfx @ ''_'' @ TypeString L (Rrtype r) \<mapsto> v) \<and>
      pfx @ ''_'' @ TypeString L TypeCNAME \<notin> dom t \<and>
      (Rrtype r = TypeCNAME \<longrightarrow> (\<forall>k \<in> dom t. \<not> HasPrefix k pfx)))"
  by (auto simp: storeRecord_def hasRecords_def GetKey_def split: sum.splits if_splits option.splits)

lemma exclusive_antimono: "exclusive L t \<Longrightarrow> dom t' \<subseteq> dom t \<Longrightarrow> exclusive L t'"
  unfolding exclusive_def by blast

lemma dom_deleteRecord: "dom (snd (deleteRecord L d ty t)) \<subseteq> dom t"
  by (auto simp: deleteRecord_def deleteRecords_def split: sum.splits if_splits)

lemma dom_omitRecord: "dom (snd (omitRecord L r t)) \<subseteq> dom t"
  by (auto simp: omitRecord_def split: sum.splits if_splits option.splits)

lemma exclusive_storeRecord:
  assumes ex: "exclusive L t"
      and nus: "\<forall>ty. CHR ''_'' \<notin> set (TypeString L ty)"
      and inj: "\<forall>ty. TypeString L ty = TypeString L TypeCNAME \<longrightarrow> ty = TypeCNAME"
  shows "exclusive L (snd (storeRecord L r t))"
proof -
  consider (same) "snd (storeRecord L r t) = t"
    | (new) pfx v where "GetKeyDomain L (Name r) = Inr pfx"
        "snd (storeRecord L r t) = t(pfx @ ''_'' @ TypeString L (Rrtype r) \<mapsto> v)"
        "pfx @ ''_'' @ TypeString L TypeCNAME \<notin> dom t"
        "Rrtype r = TypeCNAME \<longrightarrow> (\<forall>k \<in> dom t. \<not> HasPrefix k pfx)"
    using storeRecord_cases [of L r t] by blast
  then show ?thesis
  proof cases
    case same
    then show ?thesis using ex by simp
  next
    case new
    let ?k0 = "pfx @ ''_'' @ TypeString L (Rrtype r)"
    show ?thesis
      unfolding exclusive_def
    proof (intro allI impI)
      fix N ty ckey key
      assume ck: "GetKey L N TypeCNAME = Inr ckey" and k: "GetKey L N ty = Inr key"
         and cd: "ckey \<in> dom (snd (storeRecord L r t))" and kd: "key \<in> dom (snd (storeRecord L r t))"
      from ck k obtain p where p: "ckey = p @ ''_'' @ TypeString L TypeCNAME"
          "key = p @ ''_'' @ TypeString L ty"
        by (auto simp: GetKey_Inr)
      have cd': "ckey = ?k0 \<or> ckey \<in> dom t" and kd': "key = ?k0 \<or> key \<in> dom t"
        using cd kd new(2) by auto
      show "key = ckey"
      proof (cases "ckey \<in> dom t")
        case True
        show ?thesis
        proof (cases "key \<in> dom t")
          case True
          with \<open>ckey \<in> dom t\<close> ex ck k show ?thesis unfolding exclusive_def by blast
        next
          case False
          then have "key = ?k0" using kd' by simp
          then have "p = pfx" using p(2) key_split nus by metis
          then have "ckey = pfx @ ''_'' @ TypeString L TypeCNAME" using p(1) by simp
          then show ?thesis using True new(3) by simp
        qed
      next
        case False
        then have e: "ckey = ?k0" using cd' by simp
        then have pe: "p = pfx" and "TypeString L TypeCNAME = TypeString L (Rrtype r)"
          using p(1) key_split nus by metis+
        then have "Rrtype r = TypeCNAME" using inj by metis
        then have np: "\<forall>k \<in> dom t. \<not> HasPrefix k pfx" using new(4) by simp
        have "key \<notin> dom t"
        proof
          assume "key \<in> dom t"
          then have "\<not> HasPrefix key pfx" using np by blast
          then show False using p(2) pe by (simp add: HasPrefix_def)
        qed
        then show ?thesis using kd' e by simp
      qed
    qed
  qed
qed

text \<open>
  What the two guards of storeRecord do keep: every update record takes an exclusive
  table to an exclusive table, for a library whose type mnemonics have no underscore and
  give \<^verbatim>\<open>CNAME\<close> to the type CNAME only.
\<close>

lemma exclusive_UpdateRecord:
  assumes "exclusive L t"
      and "\<forall>ty. CHR ''_'' \<notin> set (TypeString L ty)"
      and "\<forall>ty. TypeString L ty = TypeString L TypeCNAME \<longrightarrow> ty = TypeCNAME"
  shows "exclusive L (snd (UpdateRecord L R q t))"
  using assms exclusive_storeRecord [OF assms]
        exclusive_antimono [OF assms(1) dom_deleteRecord]
        exclusive_antimono [OF assms(1) dom_omitRecord]
  by (auto simp: UpdateRecord_def split: option.splits)

text \<open>
  The path of storeRecord that does ignore a duplicate: an add (class IN) of a record
  whose string is already in the list under the key of its name and type, in a table that
  does not have the CNAME key of that name, returns no error and leaves the table as it
  is.
\<close>

lemma duplicate_add_noop:
  assumes "Class r = ClassINET" and "GetKey L (Name r) (Rrtype r) = Inr key"
      and "RRString L r \<in> set (index t key)"
      and "GetKey L (Name r) TypeCNAME = Inr ckey" and "ckey \<notin> dom t"
  shows "UpdateRecord L (Some r) q t = (None, t)"
proof -
  have valid: "IsDomainName L (Name r)"
    using assms(2) by (rule GetKey_Inr_valid)
  have kd: "key \<in> dom t"
    using assms(3) by (cases "t key") (auto simp: index_def)
  then have "Rrtype r \<noteq> TypeCNAME"
    using assms(2,4,5) by auto
  then show ?thesis
    using assms valid by (simp add: UpdateRecord_def storeRecord_def)
qed


lemma keydomain_foo: "GetKeyDomain miekg ''foo.example.com.'' = Inr ''com.example.foo''"
  by (simp add: key_defs lib_defs go_defs)

text \<open>
  C2 on the code. The claim ties each refusal to a record at the name itself; the code
  refuses without one, in both halves.
  \<^item> The table holds one record, at \<^verbatim>\<open>foobar.example.com.\<close>, and none at
    \<^verbatim>\<open>foo.example.com.\<close>. The add of a CNAME at \<^verbatim>\<open>foo.example.com.\<close> is refused with
    errRecordsIsExist, because the key \<^verbatim>\<open>com.example.foobar_A\<close> starts with
    \<^verbatim>\<open>com.example.foo\<close>; the handler answers the update REFUSED.
  \<^item> The table holds one CNAME at \<^verbatim>\<open>foo.example.com.\<close>. Deleting that one RR leaves the
    key \<^verbatim>\<open>com.example.foo_CNAME\<close> with the empty list, so no record is left at the name;
    the add of an A record at \<^verbatim>\<open>foo.example.com.\<close> is then refused with
    errCNAMERecordIsExist.
\<close>

theorem cname_guards_refuse_without_record_at_name:
  "\<not> recordExistsAt miekg tabFoobar (Name fooCNAME) \<and>
   Rrtype fooCNAME = TypeCNAME \<and> Class fooCNAME = ClassINET \<and>
   UpdateRecord miekg (Some fooCNAME) (question ''example.com.'' TypeSOA) tabFoobar
     = (Some errRecordsIsExist, tabFoobar) \<and>
   map_option (\<lambda>out. Rcode (reply out))
     (HandleRequest miekg (runtimeOf []) exampleZone (storeOf tabFoobar) (updateOf [fooCNAME]))
   = Some RcodeRefused \<and>
   UpdateRecord miekg (Some delFooCNAME) (question ''example.com.'' TypeSOA) tabFooCNAME
     = (None, tabFooNoCNAME) \<and>
   \<not> recordExistsAt miekg tabFooNoCNAME (Name fooA1) \<and>
   Rrtype fooA1 \<noteq> TypeCNAME \<and> Class fooA1 = ClassINET \<and>
   UpdateRecord miekg (Some fooA1) (question ''example.com.'' TypeSOA) tabFooNoCNAME
     = (Some errCNAMERecordIsExist, tabFooNoCNAME) \<and>
   map_option (\<lambda>out. Rcode (reply out))
     (HandleRequest miekg (runtimeOf []) exampleZone (storeOf tabFooCNAME)
        (updateOf [delFooCNAME, fooA1]))
   = Some RcodeRefused"
proof -
  let ?q = "question ''example.com.'' TypeSOA"
  have 1: "\<not> recordExistsAt miekg tabFoobar (Name fooCNAME)"
    by (simp add: recordExistsAt_def lib_defs go_defs input_defs consts_defs)
  have 2: "UpdateRecord miekg (Some fooCNAME) ?q tabFoobar = (Some errRecordsIsExist, tabFoobar)"
    by (simp add: pad_defs key_defs lib_defs go_defs consts_defs input_defs)
  have 3: "map_option (\<lambda>out. Rcode (reply out))
     (HandleRequest miekg (runtimeOf []) exampleZone (storeOf tabFoobar) (updateOf [fooCNAME]))
   = Some RcodeRefused"
    by (simp add: handler_defs pad_defs key_defs lib_defs go_defs consts_defs input_defs)
  have 4: "UpdateRecord miekg (Some delFooCNAME) ?q tabFooCNAME = (None, tabFooNoCNAME)"
    by (simp add: pad_defs key_defs lib_defs go_defs consts_defs input_defs)
  have 5: "\<not> recordExistsAt miekg tabFooNoCNAME (Name fooA1)"
    by (simp add: recordExistsAt_def index_def tabFooNoCNAME_def)
  have 6: "UpdateRecord miekg (Some fooA1) ?q tabFooNoCNAME
             = (Some errCNAMERecordIsExist, tabFooNoCNAME)"
    by (simp add: pad_defs key_defs lib_defs go_defs consts_defs input_defs)
  have 7: "map_option (\<lambda>out. Rcode (reply out))
     (HandleRequest miekg (runtimeOf []) exampleZone (storeOf tabFooCNAME)
        (updateOf [delFooCNAME, fooA1]))
   = Some RcodeRefused"
    by (simp add: handler_defs pad_defs key_defs lib_defs go_defs consts_defs input_defs)
  have c: "Rrtype fooCNAME = TypeCNAME" "Class fooCNAME = ClassINET"
          "Rrtype fooA1 \<noteq> TypeCNAME" "Class fooA1 = ClassINET"
    by (simp_all add: fooCNAME_def fooA1_def inRR_def)
  show ?thesis using 1 2 3 4 5 6 7 c by simp
qed

lemma str_fooA1: "RRString miekg fooA1 = line ''foo.example.com.'' ''A'' ''10.0.0.1''"
  by (simp add: lib_defs input_defs consts_defs)

lemma key_fooCNAME: "GetKey miekg ''foo.example.com.'' TypeCNAME = Inr ''com.example.foo_CNAME''"
  by (simp add: key_defs lib_defs go_defs consts_defs)

lemma duplicate_add_noop_witness:
  "Class fooA1 = ClassINET \<and>
   GetKey miekg (Name fooA1) (Rrtype fooA1) = Inr ''com.example.foo_A'' \<and>
   RRString miekg fooA1 \<in> set (index tabFooA ''com.example.foo_A'') \<and>
   GetKey miekg (Name fooA1) TypeCNAME = Inr ''com.example.foo_CNAME'' \<and>
   ''com.example.foo_CNAME'' \<notin> dom tabFooA \<and>
   UpdateRecord miekg (Some fooA1) (question ''example.com.'' TypeSOA) tabFooA = (None, tabFooA)"
proof -
  have c: "Class fooA1 = ClassINET"
    by (simp add: fooA1_def inRR_def)
  have k: "GetKey miekg (Name fooA1) (Rrtype fooA1) = Inr ''com.example.foo_A''"
    using key_fooA by (simp add: fooA1_def inRR_def)
  have m: "RRString miekg fooA1 \<in> set (index tabFooA ''com.example.foo_A'')"
    unfolding str_fooA1 by (simp add: index_def tabFooA_def)
  have ck: "GetKey miekg (Name fooA1) TypeCNAME = Inr ''com.example.foo_CNAME''"
    using key_fooCNAME by (simp add: fooA1_def inRR_def)
  have n: "''com.example.foo_CNAME'' \<notin> dom tabFooA"
    by (simp add: tabFooA_def)
  show ?thesis
    using duplicate_add_noop [OF c k m ck n, of "question ''example.com.'' TypeSOA"] c k m ck n
    by simp
qed

text \<open>
  C4 on the code. The table holds the string of \<open>fooCNAME\<close> under the key of its name
  and type, so the add of \<open>fooCNAME\<close> is the add of a duplicate, which the claim and the
  comment before the duplicate test of storeRecord say is silently ignored. The add is
  refused with errRecordsIsExist, since the test of the CNAME comes before the test for a
  duplicate, and the handler answers the update REFUSED.
\<close>

theorem duplicate_cname_refused:
  "Class fooCNAME = ClassINET \<and>
   GetKey miekg (Name fooCNAME) (Rrtype fooCNAME) = Inr ''com.example.foo_CNAME'' \<and>
   RRString miekg fooCNAME \<in> set (index tabFooCNAME ''com.example.foo_CNAME'') \<and>
   UpdateRecord miekg (Some fooCNAME) (question ''example.com.'' TypeSOA) tabFooCNAME
     = (Some errRecordsIsExist, tabFooCNAME) \<and>
   map_option (\<lambda>out. Rcode (reply out))
     (HandleRequest miekg (runtimeOf []) exampleZone (storeOf tabFooCNAME) (updateOf [fooCNAME]))
   = Some RcodeRefused"
proof -
  have k: "GetKey miekg (Name fooCNAME) (Rrtype fooCNAME) = Inr ''com.example.foo_CNAME''"
    using key_fooCNAME by (simp add: fooCNAME_def inRR_def)
  have m: "RRString miekg fooCNAME \<in> set (index tabFooCNAME ''com.example.foo_CNAME'')"
    by (simp add: lib_defs input_defs consts_defs index_def)
  have u: "UpdateRecord miekg (Some fooCNAME) (question ''example.com.'' TypeSOA) tabFooCNAME
     = (Some errRecordsIsExist, tabFooCNAME)"
    by (simp add: pad_defs key_defs lib_defs go_defs consts_defs input_defs)
  have h: "map_option (\<lambda>out. Rcode (reply out))
     (HandleRequest miekg (runtimeOf []) exampleZone (storeOf tabFooCNAME) (updateOf [fooCNAME]))
   = Some RcodeRefused"
    by (simp add: handler_defs pad_defs key_defs lib_defs go_defs consts_defs input_defs)
  show ?thesis using k m u h by (simp add: fooCNAME_def inRR_def)
qed

section \<open>Direct lookup and zone transfer\<close>

lemma nameFilter_not_RecordNotFound: "nameFilter L n vs acc \<noteq> Inl RecordNotFound"
  by (induction vs arbitrary: acc) (auto split: parsed.splits option.splits)

lemma nameFilter_other_names:
  "\<forall>v \<in> set vs. \<exists>x. NewRR L v = Parsed (Some x) \<and> ToLower (Name x) \<noteq> n \<Longrightarrow>
   nameFilter L n vs acc = Inr acc"
  by (induction vs arbitrary: acc) auto

text \<open>
  C6, as the code has it. For a well-formed question name with the reversed lower-case
  name \<open>pfx\<close>, the lookup signals RecordNotFound exactly when it collects no stored
  string, before the filter on the owner name: in an ANY lookup, when the keys that start
  with \<open>pfx\<close> hold no string; in a lookup of one type, when the key of the name and type
  holds none. When an ANY lookup collects strings that all parse to records of other owner
  names, it returns the empty list of records without an error.
\<close>

theorem notfound_before_name_filter:
  assumes "GetKeyDomain L qName = Inr pfx"
  shows "(getRecord L t ks qName TypeANY = Inl RecordNotFound \<longleftrightarrow>
            concat (map (index t) (filter (\<lambda>key. HasPrefix key pfx) ks)) = []) \<and>
         (qQtype \<noteq> TypeANY \<longrightarrow>
            (getRecord L t ks qName qQtype = Inl RecordNotFound \<longleftrightarrow>
               index t (pfx @ ''_'' @ TypeString L qQtype) = [])) \<and>
         (concat (map (index t) (filter (\<lambda>key. HasPrefix key pfx) ks)) \<noteq> [] \<and>
          (\<forall>v \<in> set (concat (map (index t) (filter (\<lambda>key. HasPrefix key pfx) ks))).
             \<exists>x. NewRR L v = Parsed (Some x) \<and> ToLower (Name x) \<noteq> ToLower qName) \<longrightarrow>
          getRecord L t ks qName TypeANY = Inr [])"
proof -
  have k: "GetKey L qName qQtype = Inr (pfx @ ''_'' @ TypeString L qQtype)"
    using assms by (simp add: GetKey_def)
  have a: "getRecord L t ks qName TypeANY = Inl RecordNotFound \<longleftrightarrow>
            concat (map (index t) (filter (\<lambda>key. HasPrefix key pfx) ks)) = []"
    using assms nameFilter_not_RecordNotFound
    by (simp add: getRecord_def Let_def del: concat_eq_Nil_conv)
  have b: "qQtype \<noteq> TypeANY \<longrightarrow>
            (getRecord L t ks qName qQtype = Inl RecordNotFound \<longleftrightarrow>
               index t (pfx @ ''_'' @ TypeString L qQtype) = [])"
    using k nameFilter_not_RecordNotFound by (simp add: getRecord_def Let_def)
  have c: "getRecord L t ks qName TypeANY = Inr []"
    if "concat (map (index t) (filter (\<lambda>key. HasPrefix key pfx) ks)) \<noteq> []"
       "\<forall>v \<in> set (concat (map (index t) (filter (\<lambda>key. HasPrefix key pfx) ks))).
             \<exists>x. NewRR L v = Parsed (Some x) \<and> ToLower (Name x) \<noteq> ToLower qName"
    using assms that nameFilter_other_names [OF that(2), of "[]"]
    by (simp add: getRecord_def Let_def del: concat_eq_Nil_conv set_concat)
  show ?thesis using a b c by blast
qed

lemma axfrLoop_all:
  "\<forall>v \<in> set vs. NewRR L v \<noteq> ParseFailed \<Longrightarrow>
   axfrLoop L vs acc = Inr (acc @ map (\<lambda>v. dropErr (NewRR L v)) vs)"
  by (induction vs arbitrary: acc) (auto simp: dropErr_def split: parsed.splits)

lemma range_covers_table:
  assumes "set ks = dom t"
  shows "set (concat (map (index t) ks)) = \<Union> (set ` ran t)"
proof
  show "set (concat (map (index t) ks)) \<subseteq> \<Union> (set ` ran t)"
    using assms by (auto simp: index_def ran_def split: option.splits)
  show "\<Union> (set ` ran t) \<subseteq> set (concat (map (index t) ks))"
  proof
    fix v assume "v \<in> \<Union> (set ` ran t)"
    then obtain k vs where "t k = Some vs" "v \<in> set vs" by (auto simp: ran_def)
    then have "k \<in> set ks" "v \<in> set (index t k)" using assms by (auto simp: index_def)
    then show "v \<in> set (concat (map (index t) ks))" by auto
  qed
qed

text \<open>
  C8, as the code has it: the gate is at the zone's own name only. A query whose one
  question asks for AXFR at the zone's name, in a zone whose stored strings all parse; \<open>ks\<close> is the order in which the \<^verbatim>\<open>range\<close> of axfrRecord visits the
  keys. Without a valid TSIG the reply is the fresh reply with the code NOTAUTH, its
  answer section is empty, and the zone and the store are as before. With a valid TSIG
  the answer section is the synthesized SOA, NS and A records, the records of the stored
  strings key by key, and the SOA again; the stored strings visited are all those of the
  table.
\<close>

theorem axfr_gate_and_envelope:
  assumes "Opcode r = OpcodeQuery"
      and "Question (SetReply L r) = [q]" and "Answer (SetReply L r) = []"
      and "ToLower (Qname q) = ToLower (zoneName z)" and "Qtype q = TypeAXFR"
      and "\<forall>m. Answer (SetTsig L r m) = Answer m"
      and "t = cells h (Zone.records z)"
      and "ks = rangeOrder w 0 0" and "distinct ks" and "set ks = dom t"
      and "\<forall>v \<in> set (concat (map (index t) ks)). NewRR L v \<noteq> ParseFailed"
  shows "(\<not> (IsTsig L r \<and> TsigStatusOk w) \<longrightarrow>
            HandleRequest L w z h r =
              Some \<lparr>reply = (SetReply L r)\<lparr>Rcode := RcodeNotAuth\<rparr>, zone = z, store = h,
                    panicked = False\<rparr> \<and>
            Answer ((SetReply L r)\<lparr>Rcode := RcodeNotAuth\<rparr>) = []) \<and>
         (IsTsig L r \<and> TsigStatusOk w \<longrightarrow>
            (\<exists>out. HandleRequest L w z h r = Some out \<and>
               Answer (reply out) =
                 [soaRR L z, fst (nsRR L z), snd (nsRR L z)]
                 @ map (\<lambda>v. dropErr (NewRR L v)) (concat (map (index t) ks))
                 @ [soaRR L z] \<and>
               zone out = z \<and> store out = h \<and> \<not> panicked out)) \<and>
         set (concat (map (index t) ks)) = \<Union> (set ` ran t)"
proof -
  have inv: "HandleRequest L w z h r =
              Some \<lparr>reply = (SetReply L r)\<lparr>Rcode := RcodeNotAuth\<rparr>, zone = z, store = h,
                    panicked = False\<rparr>"
    if "\<not> (IsTsig L r \<and> TsigStatusOk w)"
    using that assms(1-5)
    by (simp add: HandleRequest_def answerQuestion_def Let_def)
  have ax: "axfrRecord L z t ks =
              Inr ([soaRR L z, fst (nsRR L z), snd (nsRR L z)]
                   @ map (\<lambda>v. dropErr (NewRR L v)) (concat (map (index t) ks)) @ [soaRR L z])"
    using axfrLoop_all [OF assms(11), of "[soaRR L z, fst (nsRR L z), snd (nsRR L z)]"]
    by (simp add: axfrRecord_def Let_def split_beta del: set_concat)
  have val: "\<exists>out. HandleRequest L w z h r = Some out \<and>
               Answer (reply out) =
                 [soaRR L z, fst (nsRR L z), snd (nsRR L z)]
                 @ map (\<lambda>v. dropErr (NewRR L v)) (concat (map (index t) ks))
                 @ [soaRR L z] \<and>
               zone out = z \<and> store out = h \<and> \<not> panicked out"
    if "IsTsig L r \<and> TsigStatusOk w"
    using that assms(1-10) ax
    by (simp add: HandleRequest_def answerQuestion_def Let_def)
  show ?thesis
    using inv val assms(3) range_covers_table [OF assms(10)] by simp
qed

lemma parse_foobarA:
  "NewRR miekg (line ''foobar.example.com.'' ''A'' ''10.0.0.3'') = Parsed (Some foobarA)"
  by (simp add: lib_defs input_defs consts_defs)

theorem notfound_before_name_filter_witness:
  "GetKeyDomain miekg ''foo.example.com.'' = Inr ''com.example.foo'' \<and>
   getRecord miekg tabFoobar [''com.example.foobar_A''] ''foo.example.com.'' TypeA
     = Inl RecordNotFound \<and>
   getRecord miekg Map.empty [] ''foo.example.com.'' TypeANY = Inl RecordNotFound \<and>
   getRecord miekg tabFoobar [''com.example.foobar_A''] ''foo.example.com.'' TypeANY = Inr []"
proof -
  let ?ks = "[''com.example.foobar_A'']"
  note w1 = notfound_before_name_filter [OF keydomain_foo, of tabFoobar ?ks TypeA]
  note w2 = notfound_before_name_filter [OF keydomain_foo, of Map.empty "[]" TypeA]
  have m: "concat (map (index tabFoobar) (filter (\<lambda>key. HasPrefix key ''com.example.foo'') ?ks))
             = [line ''foobar.example.com.'' ''A'' ''10.0.0.3'']"
    by (simp add: HasPrefix_def index_def tabFoobar_def)
  have n: "ToLower (Name foobarA) \<noteq> ToLower ''foo.example.com.''"
    by (simp add: go_defs input_defs)
  have ix: "index tabFoobar (''com.example.foo'' @ ''_'' @ TypeString miekg TypeA) = []"
    by (simp add: index_def tabFoobar_def miekg_def typeString_def typeNames_def TypeA_def)
  have e: "concat (map (index Map.empty) (filter (\<lambda>key. HasPrefix key ''com.example.foo'') []))
             = ([] :: string list)"
    by simp
  from w1 have "TypeA \<noteq> TypeANY \<longrightarrow>
      (getRecord miekg tabFoobar ?ks ''foo.example.com.'' TypeA = Inl RecordNotFound \<longleftrightarrow>
       index tabFoobar (''com.example.foo'' @ ''_'' @ TypeString miekg TypeA) = [])"
    by blast
  then have 1: "getRecord miekg tabFoobar ?ks ''foo.example.com.'' TypeA = Inl RecordNotFound"
    unfolding ix by simp
  from w2 have "getRecord miekg Map.empty [] ''foo.example.com.'' TypeANY = Inl RecordNotFound \<longleftrightarrow>
      concat (map (index Map.empty) (filter (\<lambda>key. HasPrefix key ''com.example.foo'') [])) = []"
    by blast
  then have 2: "getRecord miekg Map.empty [] ''foo.example.com.'' TypeANY = Inl RecordNotFound"
    unfolding e by simp
  from w1 have "[line ''foobar.example.com.'' ''A'' ''10.0.0.3''] \<noteq> [] \<and>
      (\<forall>v \<in> set [line ''foobar.example.com.'' ''A'' ''10.0.0.3''].
         \<exists>x. NewRR miekg v = Parsed (Some x) \<and> ToLower (Name x) \<noteq> ToLower ''foo.example.com.'') \<longrightarrow>
      getRecord miekg tabFoobar ?ks ''foo.example.com.'' TypeANY = Inr []"
    unfolding m by blast
  then have 3: "getRecord miekg tabFoobar ?ks ''foo.example.com.'' TypeANY = Inr []"
    using parse_foobarA n by simp
  show ?thesis using keydomain_foo 1 2 3 by simp
qed

text \<open>
  The claim C6 fails on the code: the one key of the table starts with the prefix of
  \<^verbatim>\<open>foo.example.com.\<close> and its record belongs to \<^verbatim>\<open>foobar.example.com.\<close>; the ANY lookup
  answers with no record and without an error, not with RecordNotFound.
\<close>

theorem any_lookup_empty_without_error:
  "set [''com.example.foobar_A''] = dom tabFoobar \<and>
   getRecord miekg tabFoobar [''com.example.foobar_A''] ''foo.example.com.'' TypeANY = Inr [] \<and>
   getRecord miekg tabFoobar [''com.example.foobar_A''] ''foo.example.com.'' TypeANY
     \<noteq> Inl RecordNotFound"
proof -
  have "getRecord miekg tabFoobar [''com.example.foobar_A''] ''foo.example.com.'' TypeANY = Inr []"
    by (simp add: getRecord_def key_defs lib_defs go_defs consts_defs input_defs)
  then show ?thesis by (simp add: tabFoobar_def)
qed

lemma soa_example: "soaRR miekg exampleZone = Some soaExample"
  by (simp add: soaRR_def dropErr_def showInt_def lib_defs input_defs consts_defs)

lemma ns_example: "nsRR miekg exampleZone = (Some nsExample, Some aExample)"
  by (simp add: nsRR_def dropErr_def lib_defs input_defs consts_defs)

lemma parse_aCNAME:
  "NewRR miekg (line ''a.example.com.'' ''CNAME'' ''b.example.com.'') = Parsed (Some aCNAME)"
  by (simp add: lib_defs input_defs consts_defs)

lemma parse_bA:
  "NewRR miekg (line ''b.example.com.'' ''A'' ''10.0.0.9'') = Parsed (Some bA)"
  by (simp add: lib_defs input_defs consts_defs)

theorem axfr_gate_and_envelope_witness:
  "HandleRequest miekg (runtimeOf [''com.example.a_CNAME'', ''com.example.b_A'']) exampleZone
     (storeOf tabChain) (queryOf ''example.com.'' TypeAXFR False)
   = Some \<lparr>reply = (setReply (queryOf ''example.com.'' TypeAXFR False))\<lparr>Rcode := RcodeNotAuth\<rparr>,
           zone = exampleZone, store = storeOf tabChain, panicked = False\<rparr> \<and>
   map_option (\<lambda>out. Answer (reply out))
     (HandleRequest miekg (runtimeOf [''com.example.a_CNAME'', ''com.example.b_A'']) exampleZone
        (storeOf tabChain) (queryOf ''example.com.'' TypeAXFR True))
   = Some [Some soaExample, Some nsExample, Some aExample, Some aCNAME, Some bA, Some soaExample]"
proof -
  let ?ks = "[''com.example.a_CNAME'', ''com.example.b_A'']"
  let ?w = "runtimeOf ?ks"
  let ?q = "question ''example.com.'' TypeAXFR"
  have op: "\<And>b. Opcode (queryOf ''example.com.'' TypeAXFR b) = OpcodeQuery"
    by (simp add: queryOf_def)
  have qs: "\<And>b. Question (SetReply miekg (queryOf ''example.com.'' TypeAXFR b)) = [?q]"
    by (simp add: miekg_def setReply_def queryOf_def)
  have an: "\<And>b. Answer (SetReply miekg (queryOf ''example.com.'' TypeAXFR b)) = []"
    by (simp add: miekg_def setReply_def)
  have zn: "ToLower (Qname ?q) = ToLower (zoneName exampleZone)"
    by (simp add: question_def exampleZone_def)
  have ty: "Qtype ?q = TypeAXFR"
    by (simp add: question_def)
  have st: "\<And>b. \<forall>m. Answer (SetTsig miekg (queryOf ''example.com.'' TypeAXFR b) m) = Answer m"
    by (simp add: miekg_def setTsig_def split: list.splits option.splits)
  have t: "tabChain = cells (storeOf tabChain) (Zone.records exampleZone)"
    by (simp add: storeOf_def exampleZone_def)
  have ks: "?ks = rangeOrder ?w 0 0" "distinct ?ks" "set ?ks = dom tabChain"
    by (auto simp: runtimeOf_def tabChain_def)
  have cc: "concat (map (index tabChain) ?ks)
              = [line ''a.example.com.'' ''CNAME'' ''b.example.com.'',
                 line ''b.example.com.'' ''A'' ''10.0.0.9'']"
    by (simp add: index_def tabChain_def)
  have ps: "\<forall>v \<in> set (concat (map (index tabChain) ?ks)). NewRR miekg v \<noteq> ParseFailed"
    unfolding cc using parse_aCNAME parse_bA by simp
  note w0 = axfr_gate_and_envelope [OF op qs an zn ty st t ks ps, of False]
  note w1 = axfr_gate_and_envelope [OF op qs an zn ty st t ks ps, of True]
  have sig: "\<not> (IsTsig miekg (queryOf ''example.com.'' TypeAXFR False) \<and> TsigStatusOk ?w)"
            "IsTsig miekg (queryOf ''example.com.'' TypeAXFR True) \<and> TsigStatusOk ?w"
    by (simp_all add: miekg_def isTsig_def queryOf_def runtimeOf_def tsigRR_def)
  have 1: "HandleRequest miekg ?w exampleZone (storeOf tabChain)
             (queryOf ''example.com.'' TypeAXFR False)
           = Some \<lparr>reply = (setReply (queryOf ''example.com.'' TypeAXFR False))\<lparr>Rcode := RcodeNotAuth\<rparr>,
                   zone = exampleZone, store = storeOf tabChain, panicked = False\<rparr>"
    using w0 sig(1) by (simp add: miekg_def)
  from w1 sig(2) obtain out where
    o: "HandleRequest miekg ?w exampleZone (storeOf tabChain)
          (queryOf ''example.com.'' TypeAXFR True) = Some out"
       "Answer (reply out) =
          [soaRR miekg exampleZone, fst (nsRR miekg exampleZone), snd (nsRR miekg exampleZone)]
          @ map (\<lambda>v. dropErr (NewRR miekg v)) (concat (map (index tabChain) ?ks))
          @ [soaRR miekg exampleZone]"
    by blast
  have 2: "Answer (reply out)
           = [Some soaExample, Some nsExample, Some aExample, Some aCNAME, Some bA, Some soaExample]"
    unfolding o(2) cc soa_example ns_example
    by (simp add: parse_aCNAME parse_bA dropErr_def)
  show ?thesis using 1 o(1) 2 by simp
qed

text \<open>
  The claim C8 fails on the code for an AXFR question at a name other than the zone's:
  the unsigned query for \<^verbatim>\<open>a.example.com.\<close> of type AXFR passes no gate. The lookup of the
  type finds nothing, the chase follows, and the reply has the code NOERROR and the CNAME
  record of the name in its answer section.
\<close>

theorem axfr_off_apex_not_gated:
  "distinct [''com.example.a_CNAME'', ''com.example.b_A''] \<and>
   set [''com.example.a_CNAME'', ''com.example.b_A''] = dom tabChain \<and>
   allowCIDR exampleZone = [] \<and>
   \<not> IsTsig miekg (queryOf ''a.example.com.'' TypeAXFR False) \<and>
   map_option (\<lambda>out. (Rcode (reply out), Answer (reply out), panicked out))
     (HandleRequest miekg (runtimeOf [''com.example.a_CNAME'', ''com.example.b_A''])
        exampleZone (storeOf tabChain) (queryOf ''a.example.com.'' TypeAXFR False))
   = Some (RcodeSuccess, [Some aCNAME], False)"
proof -
  have "map_option (\<lambda>out. (Rcode (reply out), Answer (reply out), panicked out))
     (HandleRequest miekg (runtimeOf [''com.example.a_CNAME'', ''com.example.b_A''])
        exampleZone (storeOf tabChain) (queryOf ''a.example.com.'' TypeAXFR False))
   = Some (RcodeSuccess, [Some aCNAME], False)"
    by (simp add: handler_defs labelcname.simps key_defs lib_defs go_defs consts_defs input_defs)
  moreover have "\<not> IsTsig miekg (queryOf ''a.example.com.'' TypeAXFR False)"
    by (simp add: miekg_def isTsig_def queryOf_def)
  ultimately show ?thesis by (auto simp: tabChain_def exampleZone_def)
qed

section \<open>The batch of an update\<close>

text \<open>
  C1 on the code: the zone is empty, and the signed update holds three adds, the third
  of which (a CNAME at a name that now has A records) is refused. The reply is REFUSED,
  and the zone's table holds the records of the first two adds (\<open>tabFooA\<close>), not the
  table from before the batch: NewPad keeps the reference of the zone's map, so the pad
  writes into the zone's own table.
\<close>

theorem failed_batch_not_rolled_back:
  "cells (storeOf Map.empty) (Zone.records exampleZone) = Map.empty \<and>
   map_option (\<lambda>out. (Rcode (reply out), cells (store out) (Zone.records (zone out))))
     (HandleRequest miekg (runtimeOf []) exampleZone (storeOf Map.empty)
        (updateOf [fooA1, fooA2, fooCNAME]))
   = Some (RcodeRefused, tabFooA) \<and>
   tabFooA \<noteq> Map.empty"
proof -
  have "map_option (\<lambda>out. (Rcode (reply out), cells (store out) (Zone.records (zone out))))
     (HandleRequest miekg (runtimeOf []) exampleZone (storeOf Map.empty)
        (updateOf [fooA1, fooA2, fooCNAME]))
   = Some (RcodeRefused, tabFooA)"
    by (simp add: handler_defs pad_defs key_defs lib_defs go_defs consts_defs input_defs)
  moreover have "tabFooA ''com.example.foo_A'' \<noteq> Map.empty ''com.example.foo_A''"
    by (simp add: tabFooA_def)
  then have "tabFooA \<noteq> Map.empty" by metis
  ultimately show ?thesis by (simp add: storeOf_def exampleZone_def)
qed

section \<open>The CNAME chase\<close>

lemma nameFilter_sound:
  "nameFilter L n vs acc = Inr rrs \<Longrightarrow> x \<in> set rrs \<Longrightarrow>
   x \<in> set acc \<or> (ToLower (Name x) = n \<and> (\<exists>v \<in> set vs. NewRR L v = Parsed (Some x)))"
proof (induction vs arbitrary: acc)
  case Nil
  then show ?case by simp
next
  case (Cons v vs)
  show ?case
  proof (cases "NewRR L v")
    case ParseFailed
    then show ?thesis using Cons.prems by simp
  next
    case (Parsed R)
    show ?thesis
    proof (cases R)
      case None
      then show ?thesis using Cons.prems Parsed by simp
    next
      case (Some tmp)
      show ?thesis
      proof (cases "ToLower (Name tmp) = n")
        case True
        then have "nameFilter L n vs (acc @ [tmp]) = Inr rrs"
          using Cons.prems(1) Parsed Some by simp
        from Cons.IH [OF this Cons.prems(2)] show ?thesis
          using True Parsed Some by auto
      next
        case False
        then have "nameFilter L n vs acc = Inr rrs"
          using Cons.prems(1) Parsed Some by simp
        from Cons.IH [OF this Cons.prems(2)] show ?thesis by auto
      qed
    qed
  qed
qed

lemma getRecord_sound:
  assumes "getRecord L t ks qName qQtype = Inr rrs" and "x \<in> set rrs"
  shows "ToLower (Name x) = ToLower qName \<and>
         (\<exists>key v. v \<in> set (index t key) \<and> NewRR L v = Parsed (Some x))"
proof -
  have "\<exists>matched. nameFilter L (ToLower qName) matched [] = Inr rrs \<and>
          (\<forall>v \<in> set matched. \<exists>key. v \<in> set (index t key))"
  proof (cases "qQtype = TypeANY")
    case True
    then obtain pfx where
      "nameFilter L (ToLower qName)
         (concat (map (index t) (filter (\<lambda>key. HasPrefix key pfx) ks))) [] = Inr rrs"
      using assms(1)
      by (auto simp: getRecord_def Let_def simp del: concat_eq_Nil_conv set_concat
               split: sum.splits if_splits)
    moreover have "\<forall>v \<in> set (concat (map (index t) (filter (\<lambda>key. HasPrefix key pfx) ks))).
                     \<exists>key. v \<in> set (index t key)"
      by auto
    ultimately show ?thesis by blast
  next
    case False
    then obtain key where "nameFilter L (ToLower qName) (index t key) [] = Inr rrs"
      using assms(1)
      by (auto simp: getRecord_def Let_def split: sum.splits if_splits)
    then show ?thesis by blast
  qed
  then obtain matched where
    m: "nameFilter L (ToLower qName) matched [] = Inr rrs"
       "\<forall>v \<in> set matched. \<exists>key. v \<in> set (index t key)"
    by blast
  from nameFilter_sound [OF m(1) assms(2)] m(2) show ?thesis by simp blast
qed

lemma cnameScan_Goto:
  "cnameScan zn qt rrs answer = Goto target answer' \<Longrightarrow>
   \<exists>x \<in> set rrs. Rrtype x = TypeCNAME \<and> HasSuffix (Target x) zn \<and> target = Target x"
  by (induction rrs arbitrary: answer) (auto simp: Let_def split: if_splits)

lemma labelcname_total:
  assumes "descending L zn t rk"
  shows "\<exists>fl. labelcname L zn t ord qt j qName qQtype m = Some fl"
proof (induction "rk (ToLower qName)" arbitrary: qName qQtype j m rule: less_induct)
  case less
  show ?case
  proof (cases "getRecord L t (ord j) qName qQtype")
    case (Inl e)
    then show ?thesis by (subst labelcname.simps) simp
  next
    case (Inr rrs)
    show ?thesis
    proof (cases "cnameScan zn qt rrs (Answer m)")
      case (Exhausted answer)
      then show ?thesis using Inr by (subst labelcname.simps) simp
    next
      case (Goto target answer)
      then obtain x where x: "x \<in> set rrs" "Rrtype x = TypeCNAME" "HasSuffix (Target x) zn"
          "target = Target x"
        using cnameScan_Goto by blast
      from getRecord_sound [OF Inr x(1)] obtain key v where
        v: "ToLower (Name x) = ToLower qName" "v \<in> set (index t key)" "NewRR L v = Parsed (Some x)"
        by blast
      have "rk (ToLower target) < rk (ToLower qName)"
        using assms v x unfolding descending_def by metis
      from less [OF this] obtain fl where
        "labelcname L zn t ord qt (Suc j) target TypeANY (m\<lparr>Answer := answer\<rparr>) = Some fl"
        by blast
      then show ?thesis using Inr Goto by (subst labelcname.simps) simp
    qed
  qed
qed

lemma answerQuestion_total:
  assumes "descending L (zoneName z) t rk"
  shows "\<exists>fl. answerQuestion L z t bt ord q m = Some fl"
  using labelcname_total [OF assms, of ord "Qtype q" 1 "Qname q" TypeCNAME m]
  by (auto simp: answerQuestion_def Let_def split: sum.splits prod.splits)

lemma queryLoop_total:
  assumes "descending L (zoneName z) t rk"
  shows "\<exists>fl. queryLoop L z t bt ord i qs m = Some fl"
proof (induction qs arbitrary: i m)
  case Nil
  then show ?case by simp
next
  case (Cons q qs)
  from answerQuestion_total [OF assms, of bt "ord i" q m] obtain fl where
    fl: "answerQuestion L z t bt (ord i) q m = Some fl" by blast
  show ?case using fl Cons [of "Suc i"] by (cases fl) auto
qed

text \<open>
  C3, as the code has it. When the CNAME records of the zone's table whose target is
  inside the zone go down in some rank from owner to target (so that no chain of them is
  cyclic), the handler returns on every request: each chase makes finitely many jumps.
\<close>

theorem chase_returns_without_cycle:
  assumes "descending L (zoneName z) (cells h (Zone.records z)) rk"
  shows "\<exists>out. HandleRequest L w z h r = Some out"
proof -
  obtain fl where "queryLoop L z (cells h (Zone.records z)) (\<not> (IsTsig L r \<and> TsigStatusOk w))
      (rangeOrder w) 0 (Question (SetReply L r)) (SetReply L r) = Some fl"
    using queryLoop_total [OF assms] by blast
  then show ?thesis
    by (cases fl) (auto simp: HandleRequest_def Let_def)
qed

lemma filter_single:
  "distinct ks \<Longrightarrow> k \<in> set ks \<Longrightarrow> P k \<Longrightarrow> \<forall>x \<in> set ks. P x \<longrightarrow> x = k \<Longrightarrow>
   filter P ks = [k]"
proof (induction ks)
  case Nil
  then show ?case by simp
next
  case (Cons a ks)
  show ?case
  proof (cases "a = k")
    case True
    then have "k \<notin> set ks" using Cons.prems(1) by simp
    then have "\<forall>x \<in> set ks. \<not> P x" using Cons.prems(4) by auto
    then have "filter P ks = []" by (simp add: filter_empty_conv)
    then show ?thesis using True Cons.prems(3) by simp
  next
    case False
    then have "\<not> P a" using Cons.prems(4) by auto
    moreover have "filter P ks = [k]"
    proof (rule Cons.IH)
      show "distinct ks" using Cons.prems(1) by simp
      show "k \<in> set ks" using Cons.prems(2) False by auto
      show "P k" by (rule Cons.prems(3))
      show "\<forall>x \<in> set ks. P x \<longrightarrow> x = k" using Cons.prems(4) by auto
    qed
    ultimately show ?thesis by simp
  qed
qed

lemma chain_any_b:
  assumes "distinct ks" and "set ks = dom tabChain"
  shows "getRecord miekg tabChain ks ''b.example.com.'' TypeANY = Inr [bA]"
proof -
  have f: "filter (\<lambda>key. HasPrefix key ''com.example.b'') ks = [''com.example.b_A'']"
    using assms by (intro filter_single) (auto simp: tabChain_def HasPrefix_def)
  have k: "GetKeyDomain miekg ''b.example.com.'' = Inr ''com.example.b''"
    by (simp add: key_defs lib_defs go_defs)
  have n: "ToLower (Name bA) = ToLower ''b.example.com.''"
    by (simp add: bA_def inRR_def)
  have i: "index tabChain ''com.example.b_A'' = [line ''b.example.com.'' ''A'' ''10.0.0.9'']"
    by (simp add: index_def tabChain_def)
  show ?thesis
    using parse_bA n by (simp add: getRecord_def k f i)
qed

lemma chain_cname_a:
  "getRecord miekg tabChain ks ''a.example.com.'' TypeCNAME = Inr [aCNAME]"
proof -
  have k: "GetKey miekg ''a.example.com.'' TypeCNAME = Inr ''com.example.a_CNAME''"
    by (simp add: key_defs lib_defs go_defs consts_defs)
  have n: "ToLower (Name aCNAME) = ToLower ''a.example.com.''"
    by (simp add: aCNAME_def inRR_def)
  have i: "index tabChain ''com.example.a_CNAME'' = [line ''a.example.com.'' ''CNAME'' ''b.example.com.'']"
    by (simp add: index_def tabChain_def)
  show ?thesis
    using parse_aCNAME n by (simp add: getRecord_def k i)
qed

lemma chain_a_a:
  "getRecord miekg tabChain ks ''a.example.com.'' TypeA = Inl RecordNotFound"
proof -
  have k: "GetKey miekg ''a.example.com.'' TypeA = Inr ''com.example.a_A''"
    by (simp add: key_defs lib_defs go_defs consts_defs)
  have i: "index tabChain ''com.example.a_A'' = []"
    by (simp add: index_def tabChain_def)
  show ?thesis
    by (simp add: getRecord_def k i)
qed

lemma chain_labelcname:
  assumes "\<forall>j. distinct (ord j) \<and> set (ord j) = dom tabChain"
  shows "labelcname miekg ''example.com.'' tabChain ord TypeA (Suc 0) ''a.example.com.'' TypeCNAME m
         = Some (Continue (m\<lparr>Answer := Answer m @ [Some aCNAME, Some bA]\<rparr>))"
proof -
  have s1: "cnameScan ''example.com.'' TypeA [aCNAME] answer
              = Goto ''b.example.com.'' (answer @ [Some aCNAME])" for answer
    by (simp add: aCNAME_def inRR_def Target_def HasSuffix_def suffix_to_prefix)
  have s2: "cnameScan ''example.com.'' TypeA [bA] answer = Exhausted (answer @ [Some bA])"
    for answer
    by (simp add: bA_def inRR_def)
  have g2: "getRecord miekg tabChain (ord (Suc (Suc 0))) ''b.example.com.'' TypeANY = Inr [bA]"
    using assms by (intro chain_any_b) auto
  have "labelcname miekg ''example.com.'' tabChain ord TypeA (Suc (Suc 0)) ''b.example.com.'' TypeANY
          (m\<lparr>Answer := Answer m @ [Some aCNAME]\<rparr>)
        = Some (Continue (m\<lparr>Answer := Answer m @ [Some aCNAME, Some bA]\<rparr>))"
    by (subst labelcname.simps) (simp add: g2 s2 del: cnameScan.simps)
  then show ?thesis
    by (subst labelcname.simps) (simp add: chain_cname_a s1 del: cnameScan.simps)
qed

text \<open>
  C7. In a zone named \<^verbatim>\<open>example.com.\<close> whose table holds exactly
  \<^verbatim>\<open>a.example.com. CNAME b.example.com.\<close> and \<^verbatim>\<open>b.example.com. A 10.0.0.9\<close>, whatever
  the order in which a \<^verbatim>\<open>range\<close> visits the two keys, the query for \<^verbatim>\<open>a.example.com.\<close> of
  type A, signed or not, is answered with the CNAME record and then the A record.
\<close>

theorem cname_chase_answer:
  assumes "zoneName z = ''example.com.''" and "cells h (Zone.records z) = tabChain"
      and "\<forall>j. distinct (rangeOrder w 0 j) \<and> set (rangeOrder w 0 j) = dom tabChain"
  shows "\<exists>out. HandleRequest miekg w z h (queryOf ''a.example.com.'' TypeA tsig) = Some out \<and>
           Answer (reply out) = [Some aCNAME, Some bA] \<and> Rcode (reply out) = RcodeSuccess"
proof -
  let ?r = "queryOf ''a.example.com.'' TypeA tsig"
  let ?m = "SetReply miekg ?r"
  let ?q = "question ''a.example.com.'' TypeA"
  have m: "Question ?m = [?q]" "Answer ?m = []" "Rcode ?m = RcodeSuccess"
    by (simp_all add: miekg_def setReply_def queryOf_def)
  have nz: "ToLower (Qname ?q) \<noteq> ToLower (zoneName z)"
    using assms(1) by (simp add: question_def go_defs)
  have q: "Qname ?q = ''a.example.com.''" "Qtype ?q = TypeA"
    by (simp_all add: question_def)
  have aq: "answerQuestion miekg z tabChain bt (rangeOrder w 0) ?q ?m
              = Some (Continue (?m\<lparr>Answer := [Some aCNAME, Some bA]\<rparr>))" for bt
    using nz chain_labelcname [OF assms(3), of ?m] m(2)
    by (simp add: answerQuestion_def q chain_a_a assms(1))
  have st: "Answer (SetTsig miekg ?r m') = Answer m' \<and> Rcode (SetTsig miekg ?r m') = Rcode m'" for m'
    by (simp add: miekg_def setTsig_def split: list.splits option.splits)
  show ?thesis
    using aq st m by (simp add: HandleRequest_def Let_def assms(2) queryOf_def)
qed

theorem cname_chase_answer_witness:
  "zoneName exampleZone = ''example.com.'' \<and>
   cells (storeOf tabChain) (Zone.records exampleZone) = tabChain \<and>
   distinct [''com.example.b_A'', ''com.example.a_CNAME''] \<and>
   set [''com.example.b_A'', ''com.example.a_CNAME''] = dom tabChain \<and>
   map_option (\<lambda>out. Answer (reply out))
     (HandleRequest miekg (runtimeOf [''com.example.b_A'', ''com.example.a_CNAME''])
        exampleZone (storeOf tabChain) (queryOf ''a.example.com.'' TypeA False))
   = Some [Some aCNAME, Some bA]"
proof -
  let ?ks = "[''com.example.b_A'', ''com.example.a_CNAME'']"
  have z: "zoneName exampleZone = ''example.com.''"
    by (simp add: exampleZone_def)
  have t: "cells (storeOf tabChain) (Zone.records exampleZone) = tabChain"
    by (simp add: storeOf_def exampleZone_def)
  have k: "distinct ?ks" "set ?ks = dom tabChain"
    by (auto simp: tabChain_def)
  then have o: "\<forall>j. distinct (rangeOrder (runtimeOf ?ks) 0 j) \<and>
                    set (rangeOrder (runtimeOf ?ks) 0 j) = dom tabChain"
    by (simp add: runtimeOf_def)
  from cname_chase_answer [OF z t o, of False] obtain out where
    "HandleRequest miekg (runtimeOf ?ks) exampleZone (storeOf tabChain)
       (queryOf ''a.example.com.'' TypeA False) = Some out"
    "Answer (reply out) = [Some aCNAME, Some bA]"
    by blast
  then show ?thesis using z t k by simp
qed

lemma chain_descending:
  "descending miekg ''example.com.'' tabChain chainRank"
  unfolding descending_def
proof (intro allI impI)
  fix key v x
  assume v: "v \<in> set (index tabChain key)" and p: "NewRR miekg v = Parsed (Some x)"
     and c: "Rrtype x = TypeCNAME"
  from v have "v = line ''a.example.com.'' ''CNAME'' ''b.example.com.'' \<or>
               v = line ''b.example.com.'' ''A'' ''10.0.0.9''"
    by (auto simp: index_def tabChain_def split: if_splits)
  then have "x = aCNAME"
    using p c parse_aCNAME parse_bA by (auto simp: bA_def inRR_def)
  then show "chainRank (ToLower (Target x)) < chainRank (ToLower (Name x))"
    by (simp add: chainRank_def aCNAME_def inRR_def go_defs)
qed

theorem chase_returns_without_cycle_witness:
  "descending miekg (zoneName exampleZone) (cells (storeOf tabChain) (Zone.records exampleZone))
     chainRank \<and>
   HandleRequest miekg (runtimeOf [''com.example.a_CNAME'', ''com.example.b_A''])
     exampleZone (storeOf tabChain) (queryOf ''a.example.com.'' TypeA False) \<noteq> None"
proof -
  have d: "descending miekg (zoneName exampleZone)
             (cells (storeOf tabChain) (Zone.records exampleZone)) chainRank"
    using chain_descending by (simp add: storeOf_def exampleZone_def)
  from chase_returns_without_cycle [OF d] show ?thesis
    using d by auto
qed

subsection \<open>A cyclic chain\<close>

lemma cycle_a_a:
  "getRecord miekg tabCycle ks ''a.example.com.'' TypeA = Inl RecordNotFound"
  by (simp add: getRecord_def key_defs lib_defs go_defs consts_defs input_defs)

lemma cycle_a_cname:
  "getRecord miekg tabCycle ks ''a.example.com.'' TypeCNAME = Inr [aCNAME]"
  by (simp add: getRecord_def key_defs lib_defs go_defs consts_defs input_defs)

lemma cycle_a_any:
  "getRecord miekg tabCycle [''com.example.a_CNAME'', ''com.example.b_CNAME'']
     ''a.example.com.'' TypeANY = Inr [aCNAME]"
  by (simp add: getRecord_def key_defs lib_defs go_defs consts_defs input_defs)

lemma cycle_b_any:
  "getRecord miekg tabCycle [''com.example.a_CNAME'', ''com.example.b_CNAME'']
     ''b.example.com.'' TypeANY = Inr [bCNAME]"
  by (simp add: getRecord_def key_defs lib_defs go_defs consts_defs input_defs)

lemma cycle_scan_a:
  "cnameScan ''example.com.'' TypeA [aCNAME] answer
     = Goto ''b.example.com.'' (answer @ [Some aCNAME])"
  by (simp add: aCNAME_def inRR_def Target_def HasSuffix_def suffix_to_prefix)

lemma cycle_scan_b:
  "cnameScan ''example.com.'' TypeA [bCNAME] answer
     = Goto ''a.example.com.'' (answer @ [Some bCNAME])"
  by (simp add: bCNAME_def inRR_def Target_def HasSuffix_def suffix_to_prefix)

lemma cycle_never_ends:
  assumes "labelcname L zn t ord qt j qName qQtype m = Some y"
  shows "\<not> (L = miekg \<and> zn = ''example.com.'' \<and> t = tabCycle \<and>
      ord = (\<lambda>j. [''com.example.a_CNAME'', ''com.example.b_CNAME'']) \<and> qt = TypeA \<and>
      inCycle qName qQtype)"
proof (rule labelcname.raw_induct
    [where P = "\<lambda>L zn t ord qt j qName qQtype m y.
       \<not> (L = miekg \<and> zn = ''example.com.'' \<and> t = tabCycle \<and>
          ord = (\<lambda>j. [''com.example.a_CNAME'', ''com.example.b_CNAME'']) \<and> qt = TypeA \<and>
          inCycle qName qQtype)", OF _ assms], goal_cases)
  case (1 lc L zn t ord qt j qName qQtype m y)
  show ?case
  proof
    assume a: "L = miekg \<and> zn = ''example.com.'' \<and> t = tabCycle \<and>
      ord = (\<lambda>j. [''com.example.a_CNAME'', ''com.example.b_CNAME'']) \<and> qt = TypeA \<and>
      inCycle qName qQtype"
    then consider (ac) "qName = ''a.example.com.''" "qQtype = TypeCNAME"
      | (aa) "qName = ''a.example.com.''" "qQtype = TypeANY"
      | (ba) "qName = ''b.example.com.''" "qQtype = TypeANY"
      unfolding inCycle_def by blast
    then show False
    proof cases
      case ac
      then have "lc miekg ''example.com.'' tabCycle ord TypeA (Suc j) ''b.example.com.'' TypeANY
                   (m\<lparr>Answer := Answer m @ [Some aCNAME]\<rparr>) = Some y"
        using 1(2) a by (simp add: cycle_a_cname cycle_scan_a del: cnameScan.simps)
      from 1(1) [OF this] show False using a by (simp add: inCycle_def)
    next
      case aa
      then have "lc miekg ''example.com.'' tabCycle ord TypeA (Suc j) ''b.example.com.'' TypeANY
                   (m\<lparr>Answer := Answer m @ [Some aCNAME]\<rparr>) = Some y"
        using 1(2) a by (simp add: cycle_a_any cycle_scan_a del: cnameScan.simps)
      from 1(1) [OF this] show False using a by (simp add: inCycle_def)
    next
      case ba
      then have "lc miekg ''example.com.'' tabCycle ord TypeA (Suc j) ''a.example.com.'' TypeANY
                   (m\<lparr>Answer := Answer m @ [Some bCNAME]\<rparr>) = Some y"
        using 1(2) a by (simp add: cycle_b_any cycle_scan_b del: cnameScan.simps)
      from 1(1) [OF this] show False using a by (simp add: inCycle_def)
    qed
  qed
qed

text \<open>
  The claim C3 fails on the code: the table holds \<^verbatim>\<open>a.example.com. CNAME b.example.com.\<close>
  and \<^verbatim>\<open>b.example.com. CNAME a.example.com.\<close>, both targets inside the zone, and the
  handler never returns on the query for \<^verbatim>\<open>a.example.com.\<close> of type A.
\<close>

theorem cyclic_chase_never_returns:
  "distinct [''com.example.a_CNAME'', ''com.example.b_CNAME''] \<and>
   set [''com.example.a_CNAME'', ''com.example.b_CNAME''] = dom tabCycle \<and>
   HandleRequest miekg (runtimeOf [''com.example.a_CNAME'', ''com.example.b_CNAME''])
     exampleZone (storeOf tabCycle) (queryOf ''a.example.com.'' TypeA False) = None"
proof -
  let ?ks = "[''com.example.a_CNAME'', ''com.example.b_CNAME'']"
  let ?r = "queryOf ''a.example.com.'' TypeA False"
  let ?q = "question ''a.example.com.'' TypeA"
  have l: "labelcname miekg ''example.com.'' tabCycle (\<lambda>j. ?ks) TypeA (Suc 0)
             ''a.example.com.'' TypeCNAME m = None" for m
    using cycle_never_ends [of miekg "''example.com.''" tabCycle "\<lambda>j. ?ks" TypeA "Suc 0"
            "''a.example.com.''" TypeCNAME m]
    by (cases "labelcname miekg ''example.com.'' tabCycle (\<lambda>j. ?ks) TypeA (Suc 0)
             ''a.example.com.'' TypeCNAME m") (simp_all add: inCycle_def)
  have nz: "ToLower (Qname ?q) \<noteq> ToLower (zoneName exampleZone)"
    by (simp add: question_def exampleZone_def go_defs)
  have q: "Qname ?q = ''a.example.com.''" "Qtype ?q = TypeA"
    by (simp_all add: question_def)
  have aq: "answerQuestion miekg exampleZone tabCycle bt (\<lambda>j. ?ks) ?q m = None" for bt m
    using nz l [of m] by (simp add: answerQuestion_def q cycle_a_a exampleZone_def)
  have m: "Question (SetReply miekg ?r) = [?q]"
    by (simp add: miekg_def setReply_def queryOf_def)
  have t: "cells (storeOf tabCycle) (Zone.records exampleZone) = tabCycle"
    by (simp add: storeOf_def exampleZone_def)
  have ro: "rangeOrder (runtimeOf ?ks) 0 = (\<lambda>j. ?ks)"
    by (simp add: runtimeOf_def)
  have op: "Opcode ?r = OpcodeQuery"
    by (simp add: queryOf_def)
  have "HandleRequest miekg (runtimeOf ?ks) exampleZone (storeOf tabCycle) ?r = None"
    by (simp add: HandleRequest_def Let_def m t ro op aq)
  then show ?thesis by (auto simp: tabCycle_def)
qed

end
